theory Spec2Isabelle
  imports Main "HOL-Library.AList"
begin

section \<open>Python values and strings\<close>

text \<open>
  A Python \<open>str\<close> is modelled as a \<open>string\<close>; one \<open>char\<close> stands for one code point
  (the code points below 256). Rows of the record store, pydantic \<open>.dict()\<close> results and
  the JSON columns they hold are values of \<open>json\<close>; a Python \<open>dict\<close> is an association
  list in insertion order. JSON numbers are modelled as integers.
\<close>

datatype json =
    JNull
  | JBool bool
  | JInt int
  | JStr string
  | JList "json list"
  | JObj "(string \<times> json) list"

type_synonym row = "(string \<times> json) list"

datatype error =
    TypeError
  | AttributeError
  | KeyError
  | ValidationError
  | ValueError string
  | UnboundLocalError
  | UpstreamError

text \<open>\<open>d.get(k, default)\<close> and \<open>d[k]\<close>.\<close>

definition dict_get :: "row \<Rightarrow> string \<Rightarrow> json \<Rightarrow> json" where
  "dict_get d k dflt = (case map_of d k of None \<Rightarrow> dflt | Some v \<Rightarrow> v)"

definition dict_item :: "row \<Rightarrow> string \<Rightarrow> error + json" where
  "dict_item d k = (case map_of d k of None \<Rightarrow> Inl KeyError | Some v \<Rightarrow> Inr v)"

text \<open>Truth value of a Python object (\<open>not x\<close>, \<open>x or y\<close>, \<open>bool(x)\<close>).\<close>

fun truthy :: "json \<Rightarrow> bool" where
  "truthy JNull = False"
| "truthy (JBool b) = b"
| "truthy (JInt n) = (n \<noteq> 0)"
| "truthy (JStr s) = (s \<noteq> [])"
| "truthy (JList xs) = (xs \<noteq> [])"
| "truthy (JObj d) = (d \<noteq> [])"

definition py_or :: "json \<Rightarrow> json \<Rightarrow> json" where
  "py_or a b = (if truthy a then a else b)"

definition opt_str :: "string option \<Rightarrow> json" where
  "opt_str x = (case x of None \<Rightarrow> JNull | Some s \<Rightarrow> JStr s)"

definition opt_strs :: "string list option \<Rightarrow> json" where
  "opt_strs x = (case x of None \<Rightarrow> JNull | Some xs \<Rightarrow> JList (map JStr xs))"

text \<open>\<open>s.startswith(p)\<close>, \<open>s.endswith(p)\<close> and \<open>p in s\<close>.\<close>

definition startswith :: "string \<Rightarrow> string \<Rightarrow> bool" where
  "startswith s p \<longleftrightarrow> take (length p) s = p"

definition endswith :: "string \<Rightarrow> string \<Rightarrow> bool" where
  "endswith s p \<longleftrightarrow> length p \<le> length s \<and> drop (length s - length p) s = p"

fun contains :: "string \<Rightarrow> string \<Rightarrow> bool" where
  "contains p [] = (p = [])"
| "contains p (c # cs) = (startswith (c # cs) p \<or> contains p cs)"

section \<open>Content kind of a message (bot/whatsapp_bot.py)\<close>

text \<open>
  The \<open>if\<close>/\<open>elif\<close> chain of \<open>WhatsappBot._log_customer_message\<close> that chooses
  \<open>message_type\<close> from the content and the voice flag.
\<close>

definition customer_message_type :: "string \<Rightarrow> bool \<Rightarrow> string" where
  "customer_message_type raw_message is_voice =
     (if is_voice then ''audio''
      else if startswith raw_message ''!['' \<and> contains '']('' raw_message
              \<and> endswith raw_message '')'' then ''image''
      else if startswith raw_message ''['' \<and> contains '']('' raw_message
              \<and> endswith raw_message '')'' \<and> contains ''Audio Message'' raw_message
           then ''audio''
      else if startswith raw_message ''['' \<and> contains '']('' raw_message
              \<and> endswith raw_message '')'' then ''document''
      else ''text'')"

text \<open>
  The chain of \<open>WhatsappBot.stream_to_web_socket\<close>: the shape rule only for the sender
  \<open>customer\<close>, and \<open>text\<close> for every other sender.
\<close>

definition stream_message_type :: "string \<Rightarrow> string \<Rightarrow> string" where
  "stream_message_type message sender =
     (if sender = ''customer'' then
        (if startswith message ''!['' \<and> contains '']('' message
              \<and> endswith message '')'' then ''image''
         else if startswith message ''['' \<and> contains '']('' message
              \<and> endswith message '')'' \<and> contains ''Audio Message'' message
           then ''audio''
         else if startswith message ''['' \<and> contains '']('' message
              \<and> endswith message '')'' then ''document''
         else ''text'')
      else ''text'')"

text \<open>\<open>MessageSchema\<close>: the four keyword arguments the bot passes.\<close>

record message =
  time_stamp :: string
  content :: string
  message_type :: string
  sender :: string

text \<open>The message \<open>WhatsappBot._log_agent_message\<close> stores for an agent reply.\<close>

definition agent_message :: "string \<Rightarrow> string \<Rightarrow> message" where
  "agent_message now response =
     \<lparr>time_stamp = now, content = response, message_type = ''text'', sender = ''agent''\<rparr>"

definition customer_message :: "string \<Rightarrow> string \<Rightarrow> bool \<Rightarrow> message" where
  "customer_message now raw_message is_voice =
     \<lparr>time_stamp = now, content = raw_message,
      message_type = customer_message_type raw_message is_voice, sender = ''customer''\<rparr>"

text \<open>The message \<open>WhatsappBot.stream_to_web_socket\<close> sends to the dashboard.\<close>

definition stream_message :: "string \<Rightarrow> string \<Rightarrow> string \<Rightarrow> message" where
  "stream_message now msg sndr =
     \<lparr>time_stamp = now, content = msg,
      message_type = stream_message_type msg sndr, sender = sndr\<rparr>"

text \<open>
  The shapes named by the specification, stated on the text itself: an image reference
  \<open>![...](...)\<close> and a link \<open>[...](...)\<close>.
\<close>

definition spec_image_shape :: "string \<Rightarrow> bool" where
  "spec_image_shape s \<longleftrightarrow> (\<exists>a b. s = ''!['' @ a @ '']('' @ b @ '')'')"

definition spec_link_shape :: "string \<Rightarrow> bool" where
  "spec_link_shape s \<longleftrightarrow> (\<exists>a b. s = ''['' @ a @ '']('' @ b @ '')'')"

section \<open>Referral-code extraction (utils/referrals_handler.py)\<close>

text \<open>
  \<open>re.search\<close> with the pattern
  \<^verbatim>\<open>\(Referral code:\s*_([A-Z]{4})-([A-Z]{6})_\)\<close>.
  \<open>\s\<close> on a \<open>str\<close> pattern is Unicode white space: below 256 these are the code points
  9 to 13, 28 to 32, 133 and 160. \<open>[A-Z]\<close> is the range 65 to 90.
\<close>

definition is_space :: "char \<Rightarrow> bool" where
  "is_space c \<longleftrightarrow> (of_char c :: nat) \<in> set [9, 10, 11, 12, 13, 28, 29, 30, 31, 32, 133, 160]"

definition is_upper :: "char \<Rightarrow> bool" where
  "is_upper c \<longleftrightarrow> 65 \<le> (of_char c :: nat) \<and> (of_char c :: nat) \<le> 90"

text \<open>Match a literal at the head of the text; the rest of the text is returned.\<close>

definition lit :: "string \<Rightarrow> string \<Rightarrow> string option" where
  "lit p s = (if startswith s p then Some (drop (length p) s) else None)"

text \<open>Match \<open>[A-Z]{n}\<close> at the head of the text: the group and the rest.\<close>

definition upper_run :: "nat \<Rightarrow> string \<Rightarrow> (string \<times> string) option" where
  "upper_run n s =
     (if n \<le> length s \<and> list_all is_upper (take n s) then Some (take n s, drop n s)
      else None)"

text \<open>
  The pattern tried at one position. The greedy \<open>\s*\<close> is followed by an underscore, which
  is no white space, so only the longest run of white space can lead to a match.
\<close>

definition match_here :: "string \<Rightarrow> (string \<times> string) option" where
  "match_here s =
     (case lit ''(Referral code:'' s of None \<Rightarrow> None
      | Some s1 \<Rightarrow>
     (case lit ''_'' (dropWhile is_space s1) of None \<Rightarrow> None
      | Some s2 \<Rightarrow>
     (case upper_run 4 s2 of None \<Rightarrow> None
      | Some (campaign, s3) \<Rightarrow>
     (case lit ''-'' s3 of None \<Rightarrow> None
      | Some s4 \<Rightarrow>
     (case upper_run 6 s4 of None \<Rightarrow> None
      | Some (referral, s5) \<Rightarrow>
     (case lit ''_)'' s5 of None \<Rightarrow> None
      | Some s6 \<Rightarrow> Some (campaign, referral)))))))"

text \<open>\<open>re.search\<close>: the leftmost position at which the pattern matches.\<close>

fun re_search :: "string \<Rightarrow> (string \<times> string) option" where
  "re_search [] = match_here []"
| "re_search (c # cs) =
     (case match_here (c # cs) of Some m \<Rightarrow> Some m | None \<Rightarrow> re_search cs)"

definition extract_codes :: "string \<Rightarrow> string option \<times> string option" where
  "extract_codes message =
     (case re_search message of
        Some (campaign, referral) \<Rightarrow> (Some campaign, Some referral)
      | None \<Rightarrow> (None, None))"

text \<open>
  An occurrence of the wrapper in a text: \<open>pre\<close> before it, \<open>ws\<close> between the colon and
  the underscore, the two tokens, and \<open>suf\<close> after it.
\<close>

definition wrapper_at ::
  "string \<Rightarrow> string \<Rightarrow> string \<Rightarrow> string \<Rightarrow> string \<Rightarrow> string \<Rightarrow> bool" where
  "wrapper_at s pre ws campaign referral suf \<longleftrightarrow>
     s = pre @ ''(Referral code:'' @ ws @ ''_'' @ campaign @ ''-'' @ referral @ ''_)'' @ suf
     \<and> length campaign = 4 \<and> list_all is_upper campaign
     \<and> length referral = 6 \<and> list_all is_upper referral"

text \<open>The wrapper as the specification words it: exactly one space after the colon.\<close>

definition spec_exact_wrapper :: "string \<Rightarrow> bool" where
  "spec_exact_wrapper s \<longleftrightarrow> (\<exists>pre campaign referral suf. wrapper_at s pre '' '' campaign referral suf)"

text \<open>The wrapper the pattern accepts: any run of white space after the colon.\<close>

definition lenient_wrapper :: "string \<Rightarrow> bool" where
  "lenient_wrapper s \<longleftrightarrow>
     (\<exists>pre ws campaign referral suf. list_all is_space ws \<and> wrapper_at s pre ws campaign referral suf)"

section \<open>The record store\<close>

text \<open>
  Modelled from the spec: the Record Store of the external interfaces (generic keyed CRUD
  with filter by equality); the base class \<open>whatsapp_agent.database.base\<close> and the
  client behind it are not part of the sources. A table is the list of its rows, a query
  answers with the matching rows in table order (\<open>response.data\<close>), and an update writes
  the given items into every matching row and answers with the rows it changed.
\<close>

type_synonym table = "row list"

definition eq_filter :: "table \<Rightarrow> string \<Rightarrow> json \<Rightarrow> row list" where
  "eq_filter tbl col v = filter (\<lambda>r. map_of r col = Some v) tbl"

definition set_items :: "row \<Rightarrow> row \<Rightarrow> row" where
  "set_items r items = fold (\<lambda>(k, v) d. AList.update k v d) items r"

definition update_eq :: "table \<Rightarrow> row \<Rightarrow> string \<Rightarrow> json \<Rightarrow> table \<times> row list" where
  "update_eq tbl items col v =
     (map (\<lambda>r. if map_of r col = Some v then set_items r items else r) tbl,
      map (\<lambda>r. set_items r items) (eq_filter tbl col v))"

definition insert_row :: "table \<Rightarrow> row \<Rightarrow> table \<times> row list" where
  "insert_row tbl r = (tbl @ [r], [r])"

section \<open>Customers (database/customer.py)\<close>

text \<open>The test \<open>v not in (None, [], "")\<close> of \<open>update_customer\<close>, negated.\<close>

definition blank :: "json \<Rightarrow> bool" where
  "blank v \<longleftrightarrow> v = JNull \<or> v = JList [] \<or> v = JStr []"

text \<open>
  \<open>clean_updates\<close>: the items whose value is not blank, then
  \<open>pop('escalation_status', None)\<close>.
\<close>

definition clean_updates :: "row \<Rightarrow> row" where
  "clean_updates updates =
     AList.delete ''escalation_status'' (filter (\<lambda>(k, v). \<not> blank v) updates)"

text \<open>\<open>CustomerDataBase.update_customer\<close>: the new table and the returned \<open>response.data\<close>.\<close>

definition update_customer :: "table \<Rightarrow> string \<Rightarrow> row \<Rightarrow> table \<times> row list" where
  "update_customer tbl phone_number updates =
     update_eq tbl (clean_updates updates) ''phone_number'' (JStr phone_number)"

text \<open>\<open>CustomerDataBase.add_customer\<close>: the new table and \<open>response.data[0]\<close>.\<close>

definition add_customer :: "table \<Rightarrow> row \<Rightarrow> table \<times> row" where
  "add_customer tbl customer = (fst (insert_row tbl customer), customer)"

text \<open>\<open>CustomerDataBase.is_escalated\<close>.\<close>

definition is_escalated :: "table \<Rightarrow> string \<Rightarrow> bool" where
  "is_escalated tbl phone_number =
     (case eq_filter tbl ''phone_number'' (JStr phone_number) of
        [] \<Rightarrow> False
      | r # _ \<Rightarrow> truthy (dict_get r ''escalation_status'' JNull))"

section \<open>Referral records (schema/referrals.py, whatsap_agent/database/referral.py)\<close>

text \<open>
  \<open>ReferredUserSchema\<close>: both fields are required strings. \<open>referred_users_valid\<close> is the
  field \<open>referred_users: List[ReferredUserSchema]\<close> of \<open>ReferralSchema\<close>.
\<close>

definition is_str :: "json \<Rightarrow> bool" where
  "is_str v = (case v of JStr _ \<Rightarrow> True | _ \<Rightarrow> False)"

definition ReferredUserSchema_valid :: "json \<Rightarrow> bool" where
  "ReferredUserSchema_valid u =
     (case u of
        JObj d \<Rightarrow> is_str (dict_get d ''phone_number'' JNull) \<and> is_str (dict_get d ''time_stamp'' JNull)
      | _ \<Rightarrow> False)"

definition referred_users_valid :: "json \<Rightarrow> bool" where
  "referred_users_valid v =
     (case v of JList us \<Rightarrow> list_all ReferredUserSchema_valid us | _ \<Rightarrow> False)"

text \<open>\<open>ReferredUserSchema(phone_number=..., time_stamp=...).dict()\<close>.\<close>

definition referred_user :: "string \<Rightarrow> string \<Rightarrow> json" where
  "referred_user phone_number ts =
     JObj [(''phone_number'', JStr phone_number), (''time_stamp'', JStr ts)]"

definition get_referral_by_code :: "table \<Rightarrow> json \<Rightarrow> row option" where
  "get_referral_by_code tbl referral_code =
     (case eq_filter tbl ''referral_code'' referral_code of [] \<Rightarrow> None | r # _ \<Rightarrow> Some r)"

definition get_referral_by_phone_number :: "table \<Rightarrow> string \<Rightarrow> row option" where
  "get_referral_by_phone_number tbl phone_number =
     (case eq_filter tbl ''referrer_phone'' (JStr phone_number) of [] \<Rightarrow> None | r # _ \<Rightarrow> Some r)"

definition add_referral :: "table \<Rightarrow> row \<Rightarrow> table" where
  "add_referral tbl referral = fst (insert_row tbl referral)"

text \<open>
  \<open>ReferralDataBase.add_referred_user\<close>. Without a record \<open>referral.get\<close> raises; a stored
  value that is no list has no \<open>append\<close>; with the column missing the entry is appended to
  the default list, which is dropped, and an empty list is written.
\<close>

definition add_referred_user :: "table \<Rightarrow> json \<Rightarrow> json \<Rightarrow> error + table" where
  "add_referred_user tbl referral_code user =
     (case get_referral_by_code tbl referral_code of
        None \<Rightarrow> Inl AttributeError
      | Some referral \<Rightarrow>
          (case map_of referral ''referred_users'' of
             None \<Rightarrow>
               Inr (fst (update_eq tbl [(''referred_users'', JList [])]
                          ''referral_code'' referral_code))
           | Some (JList us) \<Rightarrow>
               Inr (fst (update_eq tbl [(''referred_users'', JList (us @ [user]))]
                          ''referral_code'' referral_code))
           | Some _ \<Rightarrow> Inl AttributeError))"

text \<open>\<open>x + 1\<close> on a stored value: integers and booleans add, everything else raises.\<close>

definition py_add1 :: "json \<Rightarrow> error + json" where
  "py_add1 v =
     (case v of
        JInt n \<Rightarrow> Inr (JInt (n + 1))
      | JBool b \<Rightarrow> Inr (JInt ((if b then 1 else 0) + 1))
      | _ \<Rightarrow> Inl TypeError)"

text \<open>\<open>ReferralDataBase.update_referral\<close>.\<close>

definition update_referral :: "table \<Rightarrow> json \<Rightarrow> error + table" where
  "update_referral tbl referral_code =
     (case get_referral_by_code tbl referral_code of
        None \<Rightarrow> Inl TypeError
      | Some referral \<Rightarrow>
          (case dict_item referral ''total_points'' of
             Inl e \<Rightarrow> Inl e
           | Inr v \<Rightarrow>
               (case py_add1 v of
                  Inl e \<Rightarrow> Inl e
                | Inr v' \<Rightarrow>
                    Inr (fst (update_eq tbl [(''total_points'', v')]
                               ''referral_code'' referral_code)))))"

section \<open>The state of the collaborators and the context of a message\<close>

text \<open>
  Modelled from the spec: the Chat History Store and the Live Broadcast Channel
  (\<open>ChatHistoryDataBase\<close> and \<open>websocket_manager\<close> are not part of the sources): a message
  is appended to the log of its address, a broadcast is published to the address. The state
  also holds the two tables and the messages sent through the messaging channel, each with
  its recipient.
\<close>

record state =
  customers :: table
  referrals :: table
  chat_history :: "(string \<times> message) list"
  dashboard :: "(string \<times> message) list"
  outbox :: "(json \<times> string) list"

text \<open>\<open>GlobalContext\<close>: the customer context and the recent messages.\<close>

record global_context =
  customer_context :: row
  messages :: "message list"

text \<open>\<open>SentimentAnalysisResult\<close>, the decision of the intent router: the fields the bot reads.\<close>

record sentiment =
  next_agent :: string
  name :: "string option"
  email :: "string option"
  address :: "string option"
  socials :: "string list option"
  interest_groups :: "string list option"

datatype agent = CustomerGreetingAgent | D2CCustomerSupportAgent | B2BBusinessSupportAgent

text \<open>
  The collaborators outside the sources, as parameters: the clock, the defaults and the
  validation rule of \<open>CustomerSchema\<close> (\<open>whatsapp_agent.schema.customer_schema\<close> is not
  under the sources), the two profile sources, the language-model calls of the router and
  of the three agents (an agent may use tools, so it may change the state), the random
  referral code, the formatted invitation and the length of the recent-history window.
\<close>

record env =
  now :: string
  schema_defaults :: row
  schema_accepts :: "row \<Rightarrow> bool"
  quickbook :: "string \<Rightarrow> error + row option"
  shopify :: "string \<Rightarrow> error + row option"
  router :: "string \<Rightarrow> global_context \<Rightarrow> error + sentiment"
  agent_run :: "agent \<Rightarrow> string \<Rightarrow> global_context \<Rightarrow> state \<Rightarrow> state \<times> (error + string)"
  generate_referral_code :: string
  static_message :: "json \<Rightarrow> string"
  history_limit :: nat

section \<open>The referral handler (utils/referrals_handler.py)\<close>

text \<open>\<open>for user in v\<close>: the items the loop visits, or the \<open>TypeError\<close> of a value that cannot be iterated.\<close>

definition py_iter :: "json \<Rightarrow> error + json list" where
  "py_iter v =
     (case v of
        JList xs \<Rightarrow> Inr xs
      | JStr s \<Rightarrow> Inr (map (\<lambda>c. JStr [c]) s)
      | JObj d \<Rightarrow> Inr (map (\<lambda>(k, _). JStr k) d)
      | _ \<Rightarrow> Inl TypeError)"

text \<open>
  The loop of \<open>_check_existing_referral\<close>: \<open>user.get('phone_number', None) == phone_number\<close>
  for each entry in turn; an entry that is no \<open>dict\<close> has no \<open>get\<close>.
\<close>

fun scan_users :: "json list \<Rightarrow> string \<Rightarrow> error + bool" where
  "scan_users [] phone_number = Inr False"
| "scan_users (user # users) phone_number =
     (case user of
        JObj d \<Rightarrow>
          if dict_get d ''phone_number'' JNull = JStr phone_number then Inr True
          else scan_users users phone_number
      | _ \<Rightarrow> Inl AttributeError)"

text \<open>\<open>ReferralHandler._check_existing_referral\<close>: every exception is answered with \<open>True\<close>.\<close>

definition check_existing_referral :: "table \<Rightarrow> string \<Rightarrow> json \<Rightarrow> bool" where
  "check_existing_referral tbl phone_number referral_code =
     (case get_referral_by_code tbl referral_code of
        None \<Rightarrow> True
      | Some referral \<Rightarrow>
          if referral = [] then True
          else
            (case py_iter (dict_get referral ''referred_users'' (JList [])) of
               Inl e \<Rightarrow> True
             | Inr users \<Rightarrow>
                 (case scan_users users phone_number of Inl e \<Rightarrow> True | Inr b \<Rightarrow> b)))"

text \<open>\<open>ReferralHandler._add_user_to_referral\<close>: an exception is logged and nothing is written.\<close>

definition add_user_to_referral :: "env \<Rightarrow> table \<Rightarrow> string \<Rightarrow> json \<Rightarrow> table" where
  "add_user_to_referral e tbl phone_number referral_code =
     (case add_referred_user tbl referral_code (referred_user phone_number (now e)) of
        Inl err \<Rightarrow> tbl
      | Inr tbl' \<Rightarrow> tbl')"

text \<open>
  The text of the notification to the referrer (the source puts a check-mark emoji, a code
  point above 255, in front of it).
\<close>

definition REFERRAL_NOTICE :: string where
  "REFERRAL_NOTICE = ''Your referral count has been incremented!''"

text \<open>\<open>ReferralHandler._increment_referral_count\<close>.\<close>

definition increment_referral_count :: "env \<Rightarrow> json \<Rightarrow> string \<Rightarrow> bool \<Rightarrow> state \<Rightarrow> state" where
  "increment_referral_count e referral_code phone_number send_message st =
     (let st1 = st\<lparr>referrals := add_user_to_referral e (referrals st) phone_number referral_code\<rparr>
      in case get_referral_by_code (referrals st1) referral_code of
           None \<Rightarrow> st1
         | Some referral \<Rightarrow>
             if referral = [] then st1
             else
               (case py_add1 (dict_get referral ''total_points'' (JInt 0)) of
                  Inl err \<Rightarrow> st1
                | Inr local_points \<Rightarrow>
                    (case update_referral (referrals st1) referral_code of
                       Inl err \<Rightarrow> st1
                     | Inr tbl \<Rightarrow>
                         (let st2 = st1\<lparr>referrals := tbl\<rparr>
                          in if send_message \<and> truthy (dict_get referral ''referrer_phone'' JNull)
                             then st2\<lparr>outbox := outbox st2 @
                                    [(dict_get referral ''referrer_phone'' JNull, REFERRAL_NOTICE)]\<rparr>
                             else st2))))"

text \<open>
  The crediting step of \<open>referral_workflow\<close>: the check, and the increment only when the
  check answers \<open>False\<close>.
\<close>

definition credit_step :: "env \<Rightarrow> string \<Rightarrow> json \<Rightarrow> state \<Rightarrow> state" where
  "credit_step e phone_number referral_code st =
     (if check_existing_referral (referrals st) phone_number referral_code then st
      else increment_referral_count e referral_code phone_number True st)"

text \<open>A field typed \<open>Optional[str]\<close> accepts \<open>None\<close> and strings.\<close>

definition optional_str :: "json \<Rightarrow> bool" where
  "optional_str v \<longleftrightarrow> v = JNull \<or> is_str v"

text \<open>
  \<open>ReferralHandler.referral_workflow\<close>. The campaign check only logs. When the new
  \<open>ReferralSchema\<close> cannot be built, nothing is saved and the invitation is still returned;
  a stored record without the key \<open>referral_code\<close> makes the workflow return \<open>None\<close>.
\<close>

definition referral_workflow ::
  "env \<Rightarrow> string \<Rightarrow> string \<Rightarrow> global_context option \<Rightarrow> state \<Rightarrow> state \<times> string option" where
  "referral_workflow e user_message phone_number gc st =
     (let (campaign_code, referral_code) = extract_codes user_message;
          st1 = credit_step e phone_number (opt_str referral_code) st
      in case get_referral_by_phone_number (referrals st1) phone_number of
           Some (item # items) \<Rightarrow>
             (case dict_item (item # items) ''referral_code'' of
                Inl err \<Rightarrow> (st1, None)
              | Inr code \<Rightarrow> (st1, Some (static_message e code)))
         | _ \<Rightarrow>
             (let new_referral_code = generate_referral_code e;
                  referrer_name = (case gc of
                      Some g \<Rightarrow> dict_get (customer_context g) ''customer_name'' JNull
                    | None \<Rightarrow> JStr []);
                  referrer_email = (case gc of
                      Some g \<Rightarrow> dict_get (customer_context g) ''email'' JNull
                    | None \<Rightarrow> JStr []);
                  new_referral =
                    [(''total_points'', JInt 0),
                     (''referrer_id'', JStr phone_number),
                     (''referrer_name'', referrer_name),
                     (''referrer_email'', referrer_email),
                     (''referrer_phone'', JStr phone_number),
                     (''referral_code'', JStr new_referral_code),
                     (''referred_users'', JList []),
                     (''campaign_id'', opt_str campaign_code)];
                  st2 = (if optional_str referrer_name \<and> optional_str referrer_email
                         then st1\<lparr>referrals := add_referral (referrals st1) new_referral\<rparr>
                         else st1)
              in (st2, Some (static_message e (JStr new_referral_code)))))"

section \<open>Identity resolution (bot/whatsapp_bot.py)\<close>

definition DEFAULT_CUSTOMER_TYPE :: string where
  "DEFAULT_CUSTOMER_TYPE = ''D2C''"

definition DEFAULT_TOTAL_SPEND :: int where
  "DEFAULT_TOTAL_SPEND = 0"

text \<open>
  What \<open>customer_details\<close> may hold when it is validated at the end: a \<open>CustomerSchema\<close>
  object, the \<open>dict\<close> of one row, or the list of rows an update answers with.
\<close>

datatype details = Instance row | Dict row | Rows "row list"

text \<open>
  Modelled from the spec: \<open>CustomerSchema\<close>, the CustomerProfile of the data model
  (\<open>whatsapp_agent.schema.customer_schema\<close> is not under the sources). An object is
  returned as it is, a \<open>dict\<close> is accepted when the schema's rule accepts it, and anything
  that is no \<open>dict\<close>, such as a list, is refused. A field is read with \<open>None\<close> as default.
\<close>

definition model_validate :: "env \<Rightarrow> details \<Rightarrow> error + row" where
  "model_validate e x =
     (case x of
        Instance r \<Rightarrow> Inr r
      | Dict r \<Rightarrow> if schema_accepts e r then Inr r else Inl ValidationError
      | Rows rs \<Rightarrow> Inl ValidationError)"

definition attr :: "row \<Rightarrow> string \<Rightarrow> json" where
  "attr r k = dict_get r k JNull"

text \<open>The constructor \<open>CustomerSchema(...)\<close>: the keyword arguments over the defaults.\<close>

definition CustomerSchema :: "env \<Rightarrow> row \<Rightarrow> error + row" where
  "CustomerSchema e kwargs =
     (let r = set_items (schema_defaults e) kwargs
      in if schema_accepts e r then Inr r else Inl ValidationError)"

text \<open>\<open>CustomerDataBase.get_customer_by_phone\<close>.\<close>

definition get_customer_by_phone :: "env \<Rightarrow> table \<Rightarrow> string \<Rightarrow> error + row option" where
  "get_customer_by_phone e tbl phone_number =
     (case eq_filter tbl ''phone_number'' (JStr phone_number) of
        [] \<Rightarrow> Inr None
      | r # _ \<Rightarrow>
          (case model_validate e (Dict r) of Inl err \<Rightarrow> Inl err | Inr c \<Rightarrow> Inr (Some c)))"

text \<open>The \<open>or\<close> chain that sends an existing record to the accounting system again.\<close>

definition incomplete :: "row \<Rightarrow> bool" where
  "incomplete customer_details \<longleftrightarrow>
     \<not> truthy (attr customer_details ''customer_name'')
     \<or> \<not> truthy (attr customer_details ''email'')
     \<or> \<not> truthy (attr customer_details ''customer_quickbook_id'')
     \<or> \<not> truthy (attr customer_details ''customer_type'')
     \<or> \<not> truthy (attr customer_details ''company_name'')
     \<or> \<not> truthy (attr customer_details ''is_active'')
     \<or> \<not> truthy (attr customer_details ''phone_number'')"

text \<open>\<open>obj.get(k)\<close> on a value that should be a \<open>dict\<close>.\<close>

definition obj_get :: "json \<Rightarrow> string \<Rightarrow> error + json" where
  "obj_get v k = (case v of JObj d \<Rightarrow> Inr (dict_get d k JNull) | _ \<Rightarrow> Inl AttributeError)"

text \<open>\<open>", ".join(parts)\<close>: an item that is no string raises.\<close>

fun join_parts :: "json list \<Rightarrow> error + string" where
  "join_parts [] = Inr []"
| "join_parts [JStr s] = Inr s"
| "join_parts (JStr s # p # ps) =
     (case join_parts (p # ps) of Inl e \<Rightarrow> Inl e | Inr t \<Rightarrow> Inr (s @ '', '' @ t))"
| "join_parts (_ # ps) = Inl TypeError"

text \<open>The minimal record of a customer no source knows.\<close>

definition minimal_customer :: "string \<Rightarrow> row" where
  "minimal_customer phone_number =
     [(''phone_number'', JStr phone_number),
      (''is_active'', JBool True),
      (''escalation_status'', JBool False),
      (''customer_type'', JStr DEFAULT_CUSTOMER_TYPE),
      (''total_spend'', JInt DEFAULT_TOTAL_SPEND)]"

text \<open>
  The keyword arguments built from a storefront customer, in the order the source
  evaluates them; any exception on the way is caught by the caller.
\<close>

definition shopify_kwargs :: "string \<Rightarrow> row \<Rightarrow> error + row" where
  "shopify_kwargs phone_number shopify_customer =
     (let email_obj = py_or (dict_get shopify_customer ''defaultEmailAddress'' JNull) (JObj []);
          addr = py_or (dict_get shopify_customer ''defaultAddress'' JNull) (JObj [])
      in case obj_get email_obj ''email'' of
           Inl err \<Rightarrow> Inl err
         | Inr email_value \<Rightarrow>
             (case addr of
                JObj a \<Rightarrow>
                  (case join_parts (filter truthy
                          (map (\<lambda>k. dict_get a k JNull)
                             [''address1'', ''city'', ''province'', ''country'', ''zip''])) of
                     Inl err \<Rightarrow> Inl err
                   | Inr joined \<Rightarrow>
                       Inr [(''phone_number'', JStr phone_number),
                            (''is_active'', JBool True),
                            (''escalation_status'', JBool False),
                            (''customer_type'', JStr DEFAULT_CUSTOMER_TYPE),
                            (''total_spend'',
                               py_or (dict_get shopify_customer ''totalSpent'' JNull)
                                 (JInt DEFAULT_TOTAL_SPEND)),
                            (''customer_name'', dict_get shopify_customer ''displayName'' JNull),
                            (''email'', email_value),
                            (''address'', py_or (JStr joined) JNull)])
              | _ \<Rightarrow> Inl AttributeError))"

text \<open>Build a record and insert it: the new table and the inserted row, or the error.\<close>

definition create_customer :: "env \<Rightarrow> table \<Rightarrow> row \<Rightarrow> error + table \<times> row" where
  "create_customer e tbl kwargs =
     (case CustomerSchema e kwargs of
        Inl err \<Rightarrow> Inl err
      | Inr new_customer \<Rightarrow> Inr (add_customer tbl new_customer))"

text \<open>
  The body of the \<open>try\<close> in the branch without accounting data and without a local
  record: the storefront lookup and the record built from its answer.
\<close>

definition try_shopify :: "env \<Rightarrow> string \<Rightarrow> table \<Rightarrow> error + table \<times> row" where
  "try_shopify e phone_number tbl =
     (case shopify e phone_number of
        Inl err \<Rightarrow> Inl err
      | Inr (Some (item # items)) \<Rightarrow>
          (case shopify_kwargs phone_number (item # items) of
             Inl err \<Rightarrow> Inl err
           | Inr kwargs \<Rightarrow> create_customer e tbl kwargs)
      | Inr _ \<Rightarrow> create_customer e tbl (minimal_customer phone_number))"

text \<open>
  \<open>WhatsappBot._get_or_create_customer\<close>: the customers table after the call and the
  validated customer, or the exception that leaves the function.
\<close>

definition get_or_create_customer :: "env \<Rightarrow> string \<Rightarrow> table \<Rightarrow> table \<times> (error + row)" where
  "get_or_create_customer e phone_number tbl =
     (case get_customer_by_phone e tbl phone_number of
        Inl err \<Rightarrow> (tbl, Inl err)
      | Inr customer_details \<Rightarrow>
          if (case customer_details of None \<Rightarrow> True | Some d \<Rightarrow> incomplete d) then
            (case quickbook e phone_number of
               Inl err \<Rightarrow> (tbl, Inl err)
             | Inr customer \<Rightarrow>
                 (case (customer, customer_details) of
                    (Some c, Some d) \<Rightarrow>
                      (let (tbl', data) = update_customer tbl phone_number c
                       in (tbl', model_validate e (Rows data)))
                  | (Some c, None) \<Rightarrow>
                      (case create_customer e tbl
                              [(''customer_name'', attr c ''customer_name''),
                               (''email'', attr c ''email''),
                               (''customer_quickbook_id'', attr c ''customer_quickbook_id''),
                               (''customer_type'', attr c ''customer_type''),
                               (''company_name'', attr c ''company_name''),
                               (''is_active'', attr c ''is_active''),
                               (''phone_number'', JStr phone_number)] of
                         Inl err \<Rightarrow> (tbl, Inl err)
                       | Inr (tbl', r) \<Rightarrow> (tbl', model_validate e (Dict r)))
                  | (None, None) \<Rightarrow>
                      (case try_shopify e phone_number tbl of
                         Inr (tbl', r) \<Rightarrow> (tbl', model_validate e (Dict r))
                       | Inl caught \<Rightarrow>
                           (case create_customer e tbl (minimal_customer phone_number) of
                              Inl err \<Rightarrow> (tbl, Inl err)
                            | Inr (tbl', r) \<Rightarrow> (tbl', model_validate e (Dict r))))
                  | (None, Some d) \<Rightarrow> (tbl, model_validate e (Instance d))))
          else
            (case customer_details of
               Some d \<Rightarrow> (tbl, model_validate e (Instance d))
             | None \<Rightarrow> (tbl, Inl (ValueError ''Unexpected state''))))"

section \<open>Routing and the workflow of one message (bot/whatsapp_bot.py)\<close>

text \<open>
  The three comparisons of \<open>_route_to_agent\<close> on \<open>sentiment.next_agent\<close> and the
  \<open>ValueError\<close> raised when none holds.
\<close>

definition select_agent :: "string \<Rightarrow> error + agent" where
  "select_agent agent_name =
     (if agent_name = ''CustomerGreetingAgent'' then Inr CustomerGreetingAgent
      else if agent_name = ''D2CCustomerSupportAgent'' then Inr D2CCustomerSupportAgent
      else if agent_name = ''B2BBusinessSupportAgent'' then Inr B2BBusinessSupportAgent
      else Inl (ValueError (''Unknown agent: '' @ agent_name)))"

definition truthy_str :: "string option \<Rightarrow> bool" where
  "truthy_str x = (case x of None \<Rightarrow> False | Some s \<Rightarrow> s \<noteq> [])"

definition truthy_strs :: "string list option \<Rightarrow> bool" where
  "truthy_strs x = (case x of None \<Rightarrow> False | Some xs \<Rightarrow> xs \<noteq> [])"

text \<open>\<open>PersonalInfoSchema(...).dict()\<close> of the fields the router extracted.\<close>

definition personal_info :: "sentiment \<Rightarrow> row" where
  "personal_info s =
     [(''customer_name'', opt_str (name s)),
      (''email'', opt_str (email s)),
      (''address'', opt_str (address s)),
      (''socials'', opt_strs (socials s)),
      (''interest_groups'', opt_strs (interest_groups s))]"

text \<open>
  The first part of \<open>_route_to_agent\<close>: when the decision carries a name, an email, an
  address, socials or interest groups, they are written to the customer's record.
\<close>

definition persist_personal_info :: "string \<Rightarrow> sentiment \<Rightarrow> state \<Rightarrow> state" where
  "persist_personal_info phone_number s st =
     (if truthy_str (name s) \<or> truthy_str (email s) \<or> truthy_str (address s)
         \<or> truthy_strs (socials s) \<or> truthy_strs (interest_groups s)
      then st\<lparr>customers :=
             fst (update_customer (customers st) phone_number (personal_info s))\<rparr>
      else st)"

text \<open>
  \<open>WhatsappBot._route_to_agent\<close>: the state after the call and the reply, or the
  exception that leaves the function.
\<close>

definition route_to_agent ::
  "env \<Rightarrow> string \<Rightarrow> string \<Rightarrow> global_context \<Rightarrow> state \<Rightarrow> state \<times> (error + string)" where
  "route_to_agent e phone_number raw_message gc st =
     (case router e raw_message gc of
        Inl err \<Rightarrow> (st, Inl err)
      | Inr s \<Rightarrow>
          (let st1 = persist_personal_info phone_number s st
           in case select_agent (next_agent s) of
                Inl err \<Rightarrow> (st1, Inl err)
              | Inr a \<Rightarrow> agent_run e a raw_message gc st1))"

text \<open>\<open>_log_customer_message\<close>, \<open>_log_agent_message\<close>, \<open>stream_to_web_socket\<close> and \<open>send_whatsapp_message\<close> on the state.\<close>

definition log_customer_message :: "env \<Rightarrow> string \<Rightarrow> string \<Rightarrow> bool \<Rightarrow> state \<Rightarrow> state" where
  "log_customer_message e phone_number raw_message is_voice st =
     st\<lparr>chat_history := chat_history st @
          [(phone_number, customer_message (now e) raw_message is_voice)]\<rparr>"

definition log_agent_message :: "env \<Rightarrow> string \<Rightarrow> string \<Rightarrow> state \<Rightarrow> state" where
  "log_agent_message e phone_number response st =
     st\<lparr>chat_history := chat_history st @ [(phone_number, agent_message (now e) response)]\<rparr>"

definition stream_to_web_socket :: "env \<Rightarrow> string \<Rightarrow> string \<Rightarrow> string \<Rightarrow> state \<Rightarrow> state" where
  "stream_to_web_socket e phone_number msg sndr st =
     st\<lparr>dashboard := dashboard st @ [(phone_number, stream_message (now e) msg sndr)]\<rparr>"

definition send_whatsapp_message :: "string \<Rightarrow> string \<Rightarrow> state \<Rightarrow> state" where
  "send_whatsapp_message to msg st = st\<lparr>outbox := outbox st @ [(JStr to, msg)]\<rparr>"

text \<open>
  Modelled from the spec: the recent window of the Chat History Store
  (\<open>get_recent_chat_history_by_phone\<close> is not part of the sources): the most recent
  messages of the address, oldest first.
\<close>

definition recent_chat_history :: "env \<Rightarrow> state \<Rightarrow> string \<Rightarrow> message list" where
  "recent_chat_history e st phone_number =
     (let ms = map snd (filter (\<lambda>(p, m). p = phone_number) (chat_history st))
      in drop (length ms - history_limit e) ms)"

text \<open>\<open>_format_customer_context\<close> and \<open>_format_message\<close>: the context handed to the handlers.\<close>

definition format_context :: "row \<Rightarrow> message list \<Rightarrow> global_context" where
  "format_context customer history =
     \<lparr>customer_context =
        [(''phone_number'', attr customer ''phone_number''),
         (''customer_type'', attr customer ''customer_type''),
         (''customer_name'', attr customer ''customer_name''),
         (''email'', attr customer ''email''),
         (''address'', attr customer ''address''),
         (''customer_quickbook_id'', attr customer ''customer_quickbook_id'')],
      messages = history\<rparr>"

text \<open>
  The reply of the branch taken for a customer who is not escalated: the referral workflow
  when a campaign code is extracted, the intent router otherwise. A workflow that returns
  \<open>None\<close> gives no content for a \<open>MessageSchema\<close>, so the reply is refused when it is
  logged.
\<close>

definition respond ::
  "env \<Rightarrow> string \<Rightarrow> string \<Rightarrow> global_context \<Rightarrow> state \<Rightarrow> state \<times> (error + string)" where
  "respond e phone_number raw_message gc st =
     (if fst (extract_codes raw_message) \<noteq> None then
        (case referral_workflow e raw_message phone_number (Some gc) st of
           (st', None) \<Rightarrow> (st', Inl ValidationError)
         | (st', Some response) \<Rightarrow> (st', Inr response))
      else route_to_agent e phone_number raw_message gc st)"

text \<open>
  \<open>WhatsappBot.execute_workflow\<close> on the normalised message (\<open>None\<close> when the messaging
  channel could not read it, else the text and the sender). Every exception raised after
  the sender is known is caught and logged, and the state reached so far is the result;
  when the message could not be read, the handler itself fails on the unbound
  \<open>phone_number\<close>.
\<close>

definition execute_workflow ::
  "env \<Rightarrow> (string \<times> string) option \<Rightarrow> bool \<Rightarrow> state \<Rightarrow> error + state" where
  "execute_workflow e message_data is_voice st =
     (case message_data of
        None \<Rightarrow> Inl UnboundLocalError
      | Some (raw_message, phone_number) \<Rightarrow>
          Inr
           (let history = recent_chat_history e st phone_number;
                st1 = log_customer_message e phone_number raw_message is_voice st;
                st2 = stream_to_web_socket e phone_number raw_message ''customer'' st1
            in case get_or_create_customer e phone_number (customers st2) of
                 (tbl, Inl err) \<Rightarrow> st2\<lparr>customers := tbl\<rparr>
               | (tbl, Inr customer) \<Rightarrow>
                   (let st3 = st2\<lparr>customers := tbl\<rparr>
                    in if \<not> is_escalated (customers st3) phone_number then
                         (case respond e phone_number raw_message
                                 (format_context customer history) st3 of
                            (st4, Inl err) \<Rightarrow> st4
                          | (st4, Inr response) \<Rightarrow>
                              send_whatsapp_message phone_number response
                                (stream_to_web_socket e phone_number response ''agent''
                                   (log_agent_message e phone_number response st4)))
                       else st3)))"

section \<open>Example data\<close>

text \<open>
  Collaborators that know no customer and always greet, a stored referral record for the
  code \<open>ABCDEF\<close> with a given \<open>referred_users\<close> value, and a state with given tables and
  empty logs. They are the concrete inputs at which the theorems are evaluated.
\<close>

definition example_env :: env where
  "example_env =
     \<lparr>now = ''2025-01-01 12:00:00'',
      schema_defaults = [],
      schema_accepts = (\<lambda>r. True),
      quickbook = (\<lambda>p. Inr None),
      shopify = (\<lambda>p. Inr None),
      router = (\<lambda>m gc. Inr \<lparr>next_agent = ''CustomerGreetingAgent'', name = None, email = None,
                  address = None, socials = None, interest_groups = None\<rparr>),
      agent_run = (\<lambda>a m gc st.
         (st, Inr (case a of
                     CustomerGreetingAgent \<Rightarrow> ''reply of CustomerGreetingAgent''
                   | D2CCustomerSupportAgent \<Rightarrow> ''reply of D2CCustomerSupportAgent''
                   | B2BBusinessSupportAgent \<Rightarrow> ''reply of B2BBusinessSupportAgent''))),
      generate_referral_code = ''QWERTY'',
      static_message = (\<lambda>code. ''invitation''),
      history_limit = 10\<rparr>"

definition example_referral :: "json \<Rightarrow> row" where
  "example_referral users =
     [(''total_points'', JInt 0),
      (''referrer_id'', JStr ''923009999999''),
      (''referrer_name'', JStr ''Bea''),
      (''referrer_email'', JNull),
      (''referrer_phone'', JStr ''923009999999''),
      (''referral_code'', JStr ''ABCDEF''),
      (''referred_users'', users),
      (''campaign_id'', JStr ''QTMR'')]"

definition example_state :: "table \<Rightarrow> table \<Rightarrow> state" where
  "example_state cs rs =
     \<lparr>customers = cs, referrals = rs, chat_history = [], dashboard = [], outbox = []\<rparr>"

definition example_customer :: row where
  "example_customer =
     [(''phone_number'', JStr ''923001234567''),
      (''customer_name'', JStr ''Ann''),
      (''email'', JNull),
      (''escalation_status'', JBool True)]"

text \<open>
  A complete customer tagged \<open>business\<close>, collaborators whose router always names a
  given handler, and an accounting system that knows the customer \<open>Ann Lee\<close>.
\<close>

definition example_business :: row where
  "example_business =
     [(''phone_number'', JStr ''923005550000''),
      (''customer_name'', JStr ''Cyd''),
      (''email'', JStr ''cyd@example.com''),
      (''customer_quickbook_id'', JStr ''17''),
      (''customer_type'', JStr ''business''),
      (''company_name'', JStr ''Cyd Ltd''),
      (''is_active'', JBool True),
      (''escalation_status'', JBool False)]"

definition example_routing :: "string \<Rightarrow> env" where
  "example_routing agent_name =
     example_env\<lparr>router := (\<lambda>m gc. Inr \<lparr>next_agent = agent_name, name = None, email = None,
        address = None, socials = None, interest_groups = None\<rparr>)\<rparr>"

definition example_quickbook :: row where
  "example_quickbook =
     [(''customer_name'', JStr ''Ann Lee''),
      (''email'', JStr ''ann@example.com''),
      (''customer_quickbook_id'', JStr ''42''),
      (''customer_type'', JStr ''B2B''),
      (''company_name'', JStr []),
      (''is_active'', JBool True)]"

definition example_accounting :: env where
  "example_accounting = example_env\<lparr>quickbook := (\<lambda>p. Inr (Some example_quickbook))\<rparr>"

section \<open>Facts about the string operations\<close>

lemma startswith_iff: "startswith s p \<longleftrightarrow> (\<exists>b. s = p @ b)"
proof
  assume "startswith s p"
  then have "s = p @ drop (length p) s"
    unfolding startswith_def by (metis append_take_drop_id)
  then show "\<exists>b. s = p @ b" ..
next
  assume "\<exists>b. s = p @ b"
  then show "startswith s p" unfolding startswith_def by auto
qed

lemma endswith_iff: "endswith s p \<longleftrightarrow> (\<exists>a. s = a @ p)"
proof
  assume "endswith s p"
  then have "s = take (length s - length p) s @ p"
    unfolding endswith_def by (metis append_take_drop_id)
  then show "\<exists>a. s = a @ p" ..
next
  assume "\<exists>a. s = a @ p"
  then show "endswith s p" unfolding endswith_def by auto
qed

lemma contains_iff: "contains p s \<longleftrightarrow> (\<exists>a b. s = a @ p @ b)"
proof (induction s)
  case Nil
  show ?case by auto
next
  case (Cons c cs)
  show ?case
  proof
    assume "contains p (c # cs)"
    then consider "startswith (c # cs) p" | "contains p cs" by auto
    then show "\<exists>a b. c # cs = a @ p @ b"
    proof cases
      case 1
      then obtain b where "c # cs = p @ b" using startswith_iff by blast
      then have "c # cs = [] @ p @ b" by simp
      then show ?thesis by blast
    next
      case 2
      then obtain a b where "cs = a @ p @ b" using Cons.IH by blast
      then have "c # cs = (c # a) @ p @ b" by simp
      then show ?thesis by blast
    qed
  next
    assume "\<exists>a b. c # cs = a @ p @ b"
    then obtain a b where ab: "c # cs = a @ p @ b" by blast
    show "contains p (c # cs)"
    proof (cases a)
      case Nil
      with ab have "startswith (c # cs) p" using startswith_iff by auto
      then show ?thesis by simp
    next
      case (Cons x a')
      with ab have "cs = a' @ p @ b" by simp
      then have "contains p cs" using Cons.IH by blast
      then show ?thesis by simp
    qed
  qed
qed



lemma shape_split:
  assumes "startswith s p" and "contains '']('' s" and "endswith s '')''"
    and p: "p = ''!['' \<or> p = ''[''"
  shows "\<exists>a b. s = p @ a @ '']('' @ b @ '')''"
proof -
  from assms obtain t where t: "s = p @ t" using startswith_iff by blast
  from assms obtain a b where ab: "s = a @ '']('' @ b" using contains_iff by blast
  from assms obtain c where c: "s = c @ '')''" using endswith_iff by blast
  have "\<exists>a'. a = p @ a'"
  proof (cases a)
    case Nil
    with t ab p show ?thesis by auto
  next
    case outer: (Cons x xs)
    show ?thesis
    proof (cases xs)
      case Nil
      with outer t ab p show ?thesis by auto
    next
      case (Cons y ys)
      with outer t ab p show ?thesis by auto
    qed
  qed
  then obtain a' where a': "a = p @ a'" by blast
  have ls: "last s = CHR '')''" using c by simp
  have "b \<noteq> []"
  proof
    assume "b = []"
    with ab have "last s = CHR ''(''" by simp
    with ls show False by simp
  qed
  then have "last b = CHR '')''" using ab ls by simp
  with \<open>b \<noteq> []\<close> have "b = butlast b @ '')''"
    by (metis append_butlast_last_id)
  with ab a' have "s = p @ a' @ '']('' @ butlast b @ '')''" by simp
  then show ?thesis by blast
qed

lemma shape_join:
  assumes "s = p @ a @ '']('' @ b @ '')''"
  shows "startswith s p \<and> contains '']('' s \<and> endswith s '')''"
proof -
  from assms have "s = p @ (a @ '']('' @ b @ '')'')" "s = (p @ a) @ '']('' @ (b @ '')'')"
    "s = (p @ a @ '']('' @ b) @ '')''" by simp_all
  then show ?thesis
    using startswith_iff contains_iff endswith_iff by blast
qed

lemma image_shape_iff:
  "startswith s ''!['' \<and> contains '']('' s \<and> endswith s '')'' \<longleftrightarrow> spec_image_shape s"
  unfolding spec_image_shape_def using shape_split [of s "''![''"] shape_join [of s "''![''"] by blast

lemma link_shape_iff:
  "startswith s ''['' \<and> contains '']('' s \<and> endswith s '')'' \<longleftrightarrow> spec_link_shape s"
  unfolding spec_link_shape_def using shape_split [of s "''[''"] shape_join [of s "''[''"] by blast

lemma image_not_link: "spec_image_shape s \<Longrightarrow> \<not> spec_link_shape s"
  unfolding spec_image_shape_def spec_link_shape_def by auto

lemma stream_customer_kind: "stream_message_type m ''customer'' = customer_message_type m False"
  unfolding stream_message_type_def customer_message_type_def by simp

section \<open>Content kind: the rule of the inbound leg\<close>

text \<open>
  Claim C7, as amended. The content kind chosen by \<open>_log_customer_message\<close> is a function
  of the content and the voice flag only: it is audio iff the voice flag is set or the
  content is a link \<open>[...](...)\<close> containing \<open>Audio Message\<close>; image iff the voice flag
  is not set and the content is an image reference \<open>![...](...)\<close>; document iff the
  voice flag is not set and the content is a link without \<open>Audio Message\<close>; text iff the
  voice flag is not set and the content has neither shape. The voice flag is tested first,
  so it wins over the image shape.
\<close>

theorem content_kind_classification:
  "(customer_message_type s v = ''image'' \<longleftrightarrow> \<not> v \<and> spec_image_shape s)
   \<and> (customer_message_type s v = ''audio'' \<longleftrightarrow>
        v \<or> (spec_link_shape s \<and> contains ''Audio Message'' s))
   \<and> (customer_message_type s v = ''document'' \<longleftrightarrow>
        \<not> v \<and> spec_link_shape s \<and> \<not> contains ''Audio Message'' s)
   \<and> (customer_message_type s v = ''text'' \<longleftrightarrow>
        \<not> v \<and> \<not> spec_image_shape s \<and> \<not> spec_link_shape s)"
  using image_shape_iff [of s] link_shape_iff [of s] image_not_link [of s]
  unfolding customer_message_type_def by auto

text \<open>
  The rule at concrete contents: one conforming content for each of the four kinds, and
  the image shape read off the theorem.
\<close>

theorem content_kind_classification_witness:
  "spec_image_shape ''![cat](http://x/cat.png)''
   \<and> customer_message_type ''![cat](http://x/cat.png)'' False = ''image''
   \<and> customer_message_type ''[Audio Message](http://x/a.ogg)'' False = ''audio''
   \<and> customer_message_type ''hello'' True = ''audio''
   \<and> customer_message_type ''[invoice](http://x/i.pdf)'' False = ''document''
   \<and> customer_message_type ''hello'' False = ''text''"
proof -
  have k: "customer_message_type ''![cat](http://x/cat.png)'' False = ''image''"
    by (simp add: customer_message_type_def startswith_def endswith_def)
  then have "spec_image_shape ''![cat](http://x/cat.png)''"
    using content_kind_classification [of "''![cat](http://x/cat.png)''" False] by blast
  moreover have "customer_message_type ''[Audio Message](http://x/a.ogg)'' False = ''audio''"
    by (simp add: customer_message_type_def startswith_def endswith_def)
  moreover have "customer_message_type ''hello'' True = ''audio''"
    by (simp add: customer_message_type_def)
  moreover have "customer_message_type ''[invoice](http://x/i.pdf)'' False = ''document''"
    by (simp add: customer_message_type_def startswith_def endswith_def)
  moreover have "customer_message_type ''hello'' False = ''text''"
    by (simp add: customer_message_type_def startswith_def endswith_def)
  ultimately show ?thesis using k by blast
qed

text \<open>
  Claim C7 as stated fails: a content of the image shape that arrives with the voice flag
  set is stored as audio, not as image.
\<close>

theorem content_kind_voice_image_counterexample:
  "spec_image_shape ''![a](b)'' \<and> customer_message_type ''![a](b)'' True \<noteq> ''image''"
proof -
  have "''![a](b)'' = ''!['' @ ''a'' @ '']('' @ ''b'' @ '')''" by simp
  then have "spec_image_shape ''![a](b)''" unfolding spec_image_shape_def by blast
  then show ?thesis by (simp add: customer_message_type_def)
qed

section \<open>Content kind: the outbound leg\<close>

text \<open>
  Claim C8, as amended. An agent reply is always stored and broadcast with the kind text:
  the outbound leg does not apply the shape rule. This equals the kind the inbound rule
  (voice flag off) gives to the same content exactly when the content has neither the
  image nor the link shape. On the inbound leg the broadcast applies the same shape rule as
  the stored message does with the voice flag off.
\<close>

theorem agent_reply_kind_is_text:
  "message_type (agent_message ts r) = ''text''
   \<and> message_type (stream_message ts r ''agent'') = ''text''
   \<and> (message_type (agent_message ts r) = customer_message_type r False
        \<longleftrightarrow> \<not> spec_image_shape r \<and> \<not> spec_link_shape r)
   \<and> message_type (stream_message ts m ''customer'') = customer_message_type m False"
proof -
  have a: "message_type (agent_message ts r) = ''text''"
    by (simp add: agent_message_def)
  have b: "message_type (stream_message ts r ''agent'') = ''text''"
    by (simp add: stream_message_def stream_message_type_def)
  have "(customer_message_type r False = ''text'' \<longleftrightarrow>
          \<not> False \<and> \<not> spec_image_shape r \<and> \<not> spec_link_shape r)"
    using image_shape_iff [of r] link_shape_iff [of r] image_not_link [of r]
    unfolding customer_message_type_def by auto
  then have c: "customer_message_type r False = ''text''
        \<longleftrightarrow> \<not> spec_image_shape r \<and> \<not> spec_link_shape r"
    by simp
  have d: "message_type (stream_message ts m ''customer'') = customer_message_type m False"
    by (simp add: stream_message_def stream_customer_kind)
  from a b c d show ?thesis by metis
qed

text \<open>
  Claim C8 as stated fails: the agent reply \<open>![a](b)\<close> is stored and broadcast as text,
  while the inbound rule classifies the same content as image.
\<close>

theorem agent_reply_kind_counterexample:
  "message_type (agent_message ''t'' ''![a](b)'') \<noteq> customer_message_type ''![a](b)'' False
   \<and> message_type (stream_message ''t'' ''![a](b)'' ''agent'')
       \<noteq> customer_message_type ''![a](b)'' False"
  by (simp add: agent_message_def stream_message_def stream_message_type_def
      customer_message_type_def startswith_def endswith_def)

section \<open>Referral-code extraction\<close>

lemma lit_iff: "lit p s = Some r \<longleftrightarrow> s = p @ r"
proof
  assume "lit p s = Some r"
  then have "startswith s p" and r: "r = drop (length p) s"
    unfolding lit_def by (auto split: if_splits)
  then obtain b where "s = p @ b" using startswith_iff by blast
  with r show "s = p @ r" by simp
next
  assume "s = p @ r"
  then show "lit p s = Some r" unfolding lit_def startswith_def by simp
qed

lemma upper_run_iff:
  "upper_run n s = Some (g, r) \<longleftrightarrow> s = g @ r \<and> length g = n \<and> list_all is_upper g"
proof
  assume "upper_run n s = Some (g, r)"
  then have "n \<le> length s" "list_all is_upper (take n s)" "g = take n s" "r = drop n s"
    unfolding upper_run_def by (simp_all split: if_splits)
  then show "s = g @ r \<and> length g = n \<and> list_all is_upper g"
    by simp
next
  assume "s = g @ r \<and> length g = n \<and> list_all is_upper g"
  then show "upper_run n s = Some (g, r)"
    unfolding upper_run_def by simp
qed

lemma underscore_not_space: "\<not> is_space CHR ''_''"
  by (simp add: is_space_def)

lemma skip_spaces:
  "dropWhile is_space s1 = CHR ''_'' # t \<longleftrightarrow>
     (\<exists>ws. list_all is_space ws \<and> s1 = ws @ CHR ''_'' # t)"
proof
  assume h: "dropWhile is_space s1 = CHR ''_'' # t"
  have "s1 = takeWhile is_space s1 @ dropWhile is_space s1" by simp
  with h have "s1 = takeWhile is_space s1 @ CHR ''_'' # t" by simp
  moreover have "list_all is_space (takeWhile is_space s1)"
    by (simp add: list_all_iff) (metis set_takeWhileD)
  ultimately show "\<exists>ws. list_all is_space ws \<and> s1 = ws @ CHR ''_'' # t" by blast
next
  assume "\<exists>ws. list_all is_space ws \<and> s1 = ws @ CHR ''_'' # t"
  then obtain ws where ws: "list_all is_space ws" "s1 = ws @ CHR ''_'' # t" by blast
  then have "dropWhile is_space s1 = dropWhile is_space (CHR ''_'' # t)"
    by (simp add: list_all_iff)
  then show "dropWhile is_space s1 = CHR ''_'' # t"
    using underscore_not_space by simp
qed

lemma match_here_iff:
  "match_here s = Some (c, r) \<longleftrightarrow>
     (\<exists>ws suf. list_all is_space ws \<and> wrapper_at s [] ws c r suf)"
proof
  assume h: "match_here s = Some (c, r)"
  from h obtain s1 where s1: "lit ''(Referral code:'' s = Some s1"
    unfolding match_here_def by (auto split: option.splits)
  from h s1 obtain s2 where s2: "lit ''_'' (dropWhile is_space s1) = Some s2"
    unfolding match_here_def by (auto split: option.splits)
  from h s1 s2 obtain c' s3 where s3: "upper_run 4 s2 = Some (c', s3)"
    unfolding match_here_def by (auto split: option.splits)
  from h s1 s2 s3 obtain s4 where s4: "lit ''-'' s3 = Some s4"
    unfolding match_here_def by (auto split: option.splits)
  from h s1 s2 s3 s4 obtain r' s5 where s5: "upper_run 6 s4 = Some (r', s5)"
    unfolding match_here_def by (auto split: option.splits)
  from h s1 s2 s3 s4 s5 obtain s6 where s6: "lit ''_)'' s5 = Some s6"
    unfolding match_here_def by (auto split: option.splits)
  from h s1 s2 s3 s4 s5 s6 have eq: "c' = c" "r' = r"
    unfolding match_here_def by simp_all
  from s2 have "dropWhile is_space s1 = CHR ''_'' # s2" using lit_iff by simp
  then obtain ws where ws: "list_all is_space ws" "s1 = ws @ CHR ''_'' # s2"
    using skip_spaces by blast
  from s1 have a: "s = ''(Referral code:'' @ s1" using lit_iff by blast
  from s3 eq have b: "s2 = c @ s3" "length c = 4" "list_all is_upper c"
    using upper_run_iff by blast+
  from s4 have d: "s3 = ''-'' @ s4" using lit_iff by blast
  from s5 eq have e: "s4 = r @ s5" "length r = 6" "list_all is_upper r"
    using upper_run_iff by blast+
  from s6 have f: "s5 = ''_)'' @ s6" using lit_iff by blast
  have "wrapper_at s [] ws c r s6"
    unfolding wrapper_at_def using a ws(2) b d e f by simp
  with ws(1) show "\<exists>ws suf. list_all is_space ws \<and> wrapper_at s [] ws c r suf" by blast
next
  assume "\<exists>ws suf. list_all is_space ws \<and> wrapper_at s [] ws c r suf"
  then obtain ws suf where ws: "list_all is_space ws" and w: "wrapper_at s [] ws c r suf"
    by blast
  define s5 where "s5 = ''_)'' @ suf"
  define s4 where "s4 = r @ s5"
  define s3 where "s3 = ''-'' @ s4"
  define s2 where "s2 = c @ s3"
  define s1 where "s1 = ws @ CHR ''_'' # s2"
  from w have s: "s = ''(Referral code:'' @ s1"
    and c: "length c = 4" "list_all is_upper c" and r: "length r = 6" "list_all is_upper r"
    unfolding wrapper_at_def s1_def s2_def s3_def s4_def s5_def by simp_all
  have 1: "lit ''(Referral code:'' s = Some s1" using s lit_iff by blast
  have "dropWhile is_space s1 = CHR ''_'' # s2"
    using skip_spaces ws s1_def by blast
  then have 2: "lit ''_'' (dropWhile is_space s1) = Some s2" using lit_iff by simp
  have 3: "upper_run 4 s2 = Some (c, s3)" using upper_run_iff c s2_def by blast
  have 4: "lit ''-'' s3 = Some s4" using lit_iff s3_def by blast
  have 5: "upper_run 6 s4 = Some (r, s5)" using upper_run_iff r s4_def by blast
  have 6: "lit ''_)'' s5 = Some suf" using lit_iff s5_def by blast
  show "match_here s = Some (c, r)"
    unfolding match_here_def by (simp add: 1 2 3 4 5 6)
qed

lemma re_search_None: "re_search s = None \<Longrightarrow> s = pre @ t \<Longrightarrow> match_here t = None"
proof (induction s arbitrary: pre)
  case Nil
  then show ?case by simp
next
  case (Cons x xs)
  show ?case
  proof (cases pre)
    case Nil
    with Cons.prems show ?thesis by (auto split: option.splits)
  next
    case (Cons y ys)
    with Cons.prems have "re_search xs = None" "xs = ys @ t"
      by (auto split: option.splits)
    then show ?thesis using Cons.IH by blast
  qed
qed

lemma re_search_Some:
  "re_search s = Some m \<Longrightarrow>
     \<exists>pre t. s = pre @ t \<and> match_here t = Some m
       \<and> (\<forall>pre' t'. s = pre' @ t' \<and> match_here t' \<noteq> None \<longrightarrow> length pre \<le> length pre')"
proof (induction s)
  case Nil
  then have "[] = [] @ [] \<and> match_here [] = Some m" by simp
  then show ?case by fastforce
next
  case (Cons x xs)
  show ?case
  proof (cases "match_here (x # xs)")
    case (Some m')
    with Cons.prems have "x # xs = [] @ (x # xs) \<and> match_here (x # xs) = Some m" by simp
    then show ?thesis by (metis list.size(3) le0)
  next
    case None
    with Cons.prems have "re_search xs = Some m" by simp
    then obtain pre t where pt: "xs = pre @ t" "match_here t = Some m"
      and least: "\<forall>pre' t'. xs = pre' @ t' \<and> match_here t' \<noteq> None \<longrightarrow> length pre \<le> length pre'"
      using Cons.IH by blast
    have "\<forall>pre' t'. x # xs = pre' @ t' \<and> match_here t' \<noteq> None \<longrightarrow> length (x # pre) \<le> length pre'"
    proof (intro allI impI)
      fix pre' t'
      assume h: "x # xs = pre' @ t' \<and> match_here t' \<noteq> None"
      show "length (x # pre) \<le> length pre'"
      proof (cases pre')
        case Nil
        with h None show ?thesis by simp
      next
        case (Cons y ys)
        with h have "xs = ys @ t' \<and> match_here t' \<noteq> None" by simp
        then have "length pre \<le> length ys" using least by blast
        with Cons show ?thesis by simp
      qed
    qed
    moreover from pt have "x # xs = (x # pre) @ t" by simp
    ultimately show ?thesis using pt(2) by blast
  qed
qed

lemma wrapper_at_shift:
  "wrapper_at (pre @ t) pre ws c r suf \<longleftrightarrow> wrapper_at t [] ws c r suf"
  unfolding wrapper_at_def by simp

lemma wrapper_at_prefix: "wrapper_at s pre ws c r suf \<Longrightarrow> \<exists>t. s = pre @ t"
  unfolding wrapper_at_def by simp

lemma lenient_iff: "lenient_wrapper s \<longleftrightarrow> re_search s \<noteq> None"
proof
  assume "lenient_wrapper s"
  then obtain pre ws c r suf where ws: "list_all is_space ws" and w: "wrapper_at s pre ws c r suf"
    unfolding lenient_wrapper_def by blast
  from w obtain t where t: "s = pre @ t" using wrapper_at_prefix by blast
  with w have "wrapper_at t [] ws c r suf" using wrapper_at_shift by simp
  with ws have "match_here t = Some (c, r)" using match_here_iff by blast
  with t show "re_search s \<noteq> None" using re_search_None by fastforce
next
  assume "re_search s \<noteq> None"
  then obtain c r where "re_search s = Some (c, r)" by auto
  then obtain pre t where t: "s = pre @ t" "match_here t = Some (c, r)"
    using re_search_Some by blast
  then obtain ws suf where "list_all is_space ws" "wrapper_at t [] ws c r suf"
    using match_here_iff by blast
  with t(1) have "list_all is_space ws \<and> wrapper_at s pre ws c r suf"
    using wrapper_at_shift by simp
  then show "lenient_wrapper s" unfolding lenient_wrapper_def by blast
qed

lemma extract_first:
  assumes "lenient_wrapper s"
  shows "\<exists>pre ws c r suf. extract_codes s = (Some c, Some r)
           \<and> list_all is_space ws \<and> wrapper_at s pre ws c r suf
           \<and> (\<forall>pre' ws' c' r' suf'.
                 list_all is_space ws' \<and> wrapper_at s pre' ws' c' r' suf'
                 \<longrightarrow> length pre \<le> length pre')"
proof -
  from assms have "re_search s \<noteq> None" by (simp add: lenient_iff)
  then obtain c r where m: "re_search s = Some (c, r)" by auto
  from re_search_Some [OF m] obtain pre t where t: "s = pre @ t" "match_here t = Some (c, r)"
    and least: "\<And>pre' t'. s = pre' @ t' \<Longrightarrow> match_here t' \<noteq> None \<Longrightarrow> length pre \<le> length pre'"
    by blast
  from t(2) obtain ws suf where ws: "list_all is_space ws" "wrapper_at t [] ws c r suf"
    unfolding match_here_iff by blast
  with t(1) have w: "wrapper_at s pre ws c r suf" by (simp add: wrapper_at_shift)
  have first: "\<forall>pre' ws' c' r' suf'.
          list_all is_space ws' \<and> wrapper_at s pre' ws' c' r' suf' \<longrightarrow> length pre \<le> length pre'"
  proof (intro allI impI)
    fix pre' ws' c' r' suf'
    assume h: "list_all is_space ws' \<and> wrapper_at s pre' ws' c' r' suf'"
    then obtain t' where t': "s = pre' @ t'" using wrapper_at_prefix by blast
    from h have "wrapper_at (pre' @ t') pre' ws' c' r' suf'" unfolding t' by simp
    then have "wrapper_at t' [] ws' c' r' suf'" by (simp only: wrapper_at_shift)
    with h have "match_here t' = Some (c', r')" unfolding match_here_iff by blast
    then have "match_here t' \<noteq> None" by simp
    with t' show "length pre \<le> length pre'" by (rule least)
  qed
  have e: "extract_codes s = (Some c, Some r)" using m by (simp add: extract_codes_def)
  from e ws(1) w first
  have "extract_codes s = (Some c, Some r)
      \<and> list_all is_space ws \<and> wrapper_at s pre ws c r suf
      \<and> (\<forall>pre' ws' c' r' suf'.
            list_all is_space ws' \<and> wrapper_at s pre' ws' c' r' suf'
            \<longrightarrow> length pre \<le> length pre')"
    by (intro conjI)
  then show ?thesis by (intro exI)
qed

lemma wrapper_length:
  "wrapper_at s pre ws c r suf \<Longrightarrow> length s = length pre + length ws + length suf + 29"
  unfolding wrapper_at_def by simp

lemma extract_codes_none: "\<not> lenient_wrapper s \<Longrightarrow> extract_codes s = (None, None)"
  by (cases "re_search s") (simp_all add: lenient_iff extract_codes_def)

lemma extract_codes_example:
  "extract_codes ''(Referral code: _ABCD-ABCDEF_)'' = (Some ''ABCD'', Some ''ABCDEF'')"
  by (simp add: extract_codes_def match_here_def lit_def startswith_def upper_run_def
      is_upper_def is_space_def)

text \<open>
  Claim C3, as amended. Extraction is a total function of the text. For every text with no
  occurrence of the wrapper \<open>(Referral code:\<close>, any run of white space (none, one or
  several characters), \<open>_CCCC-RRRRRR_)\<close> with four and six upper-case letters, it returns
  (absent, absent); for a text with such an occurrence it returns the two tokens of the
  leftmost one; for \<open>(Referral code: _ABCD-ABCDEF_)\<close> it returns exactly \<open>ABCD\<close> and
  \<open>ABCDEF\<close>.
\<close>

theorem extract_codes_wrapper:
  "(\<not> lenient_wrapper s \<longrightarrow> extract_codes s = (None, None))
   \<and> (lenient_wrapper s \<longrightarrow>
        (\<exists>pre ws c r suf. extract_codes s = (Some c, Some r)
           \<and> list_all is_space ws \<and> wrapper_at s pre ws c r suf
           \<and> (\<forall>pre' ws' c' r' suf'.
                 list_all is_space ws' \<and> wrapper_at s pre' ws' c' r' suf'
                 \<longrightarrow> length pre \<le> length pre')))
   \<and> extract_codes ''(Referral code: _ABCD-ABCDEF_)'' = (Some ''ABCD'', Some ''ABCDEF'')"
  using extract_codes_none [of s] extract_first [of s] extract_codes_example
  by (intro conjI impI)

text \<open>
  The theorem at a text without the wrapper (lower-case label: matching is case-sensitive)
  and at a text with two occurrences, of which the first counts.
\<close>

theorem extract_codes_wrapper_witness:
  "\<not> lenient_wrapper ''(referral code: _ABCD-ABCDEF_)''
   \<and> extract_codes ''(referral code: _ABCD-ABCDEF_)'' = (None, None)
   \<and> lenient_wrapper ''(Referral code: _ABCD-ABCDEF_) (Referral code: _WXYZ-UVWXYZ_)''
   \<and> (\<exists>pre ws suf. list_all is_space ws
        \<and> wrapper_at ''(Referral code: _ABCD-ABCDEF_) (Referral code: _WXYZ-UVWXYZ_)''
             pre ws ''ABCD'' ''ABCDEF'' suf)"
proof -
  let ?a = "''(referral code: _ABCD-ABCDEF_)''"
  let ?b = "''(Referral code: _ABCD-ABCDEF_) (Referral code: _WXYZ-UVWXYZ_)''"
  have na: "\<not> lenient_wrapper ?a"
    by (simp add: lenient_iff match_here_def lit_def startswith_def)
  have a: "extract_codes ?a = (None, None)"
    using extract_codes_wrapper [of ?a] na by blast
  have eb: "extract_codes ?b = (Some ''ABCD'', Some ''ABCDEF'')"
    by (simp add: extract_codes_def match_here_def lit_def startswith_def upper_run_def
        is_upper_def is_space_def)
  have "re_search ?b \<noteq> None"
    by (simp add: match_here_def lit_def startswith_def upper_run_def is_upper_def is_space_def)
  then have lb: "lenient_wrapper ?b"
    unfolding lenient_iff .
  then obtain pre ws c r suf where
    "extract_codes ?b = (Some c, Some r)" "list_all is_space ws" "wrapper_at ?b pre ws c r suf"
    using extract_codes_wrapper [of ?b] by blast
  with eb have "list_all is_space ws \<and> wrapper_at ?b pre ws ''ABCD'' ''ABCDEF'' suf" by simp
  then have "\<exists>pre ws suf. list_all is_space ws \<and> wrapper_at ?b pre ws ''ABCD'' ''ABCDEF'' suf"
    by (intro exI)
  with na a lb show ?thesis by (intro conjI)
qed

text \<open>
  Claim C3 as stated fails: the text \<open>(Referral code:_ABCD-ABCDEF_)\<close>, with no space after
  the colon, holds no occurrence of the wrapper with exactly one space, and extraction
  still returns both tokens.
\<close>

theorem extract_codes_exact_wrapper_counterexample:
  "\<not> spec_exact_wrapper ''(Referral code:_ABCD-ABCDEF_)''
   \<and> extract_codes ''(Referral code:_ABCD-ABCDEF_)'' = (Some ''ABCD'', Some ''ABCDEF'')"
proof -
  have "\<not> spec_exact_wrapper ''(Referral code:_ABCD-ABCDEF_)''"
  proof
    assume "spec_exact_wrapper ''(Referral code:_ABCD-ABCDEF_)''"
    then obtain pre c r suf where
      "wrapper_at ''(Referral code:_ABCD-ABCDEF_)'' pre '' '' c r suf"
      unfolding spec_exact_wrapper_def by blast
    then have "length ''(Referral code:_ABCD-ABCDEF_)''
        = length pre + length '' '' + length suf + 29"
      by (rule wrapper_length)
    then show False by simp
  qed
  moreover have "extract_codes ''(Referral code:_ABCD-ABCDEF_)'' = (Some ''ABCD'', Some ''ABCDEF'')"
    by (simp add: extract_codes_def match_here_def lit_def startswith_def upper_run_def
        is_upper_def is_space_def)
  ultimately show ?thesis by simp
qed

section \<open>Facts about the record store and the customer update\<close>

lemma set_items_Some:
  "map_of (set_items r items) k = Some v \<Longrightarrow> map_of r k = Some v \<or> (k, v) \<in> set items"
  unfolding set_items_def
proof (induction items arbitrary: r)
  case Nil
  then show ?case by simp
next
  case (Cons x xs)
  obtain k' v' where x: "x = (k', v')" by (cases x)
  from Cons.prems have "map_of (fold (\<lambda>(k, v) d. AList.update k v d) xs (AList.update k' v' r)) k = Some v"
    by (simp add: x)
  then have "map_of (AList.update k' v' r) k = Some v \<or> (k, v) \<in> set xs"
    by (rule Cons.IH)
  then show ?case by (auto simp: x update_conv' split: if_splits)
qed

lemma set_items_other:
  "k \<notin> fst ` set items \<Longrightarrow> map_of (set_items r items) k = map_of r k"
  unfolding set_items_def
proof (induction items arbitrary: r)
  case Nil
  then show ?case by simp
next
  case (Cons x xs)
  obtain k' v' where x: "x = (k', v')" by (cases x)
  with Cons.prems have "k \<noteq> k'" "k \<notin> fst ` set xs" by auto
  then show ?case using Cons.IH [of "AList.update k' v' r"] by (simp add: x update_conv')
qed

lemma set_items_defined:
  "map_of r k = Some v \<Longrightarrow> \<exists>v'. map_of (set_items r items) k = Some v'"
  unfolding set_items_def
proof (induction items arbitrary: r v)
  case Nil
  then show ?case by simp
next
  case (Cons x xs)
  obtain k' v' where x: "x = (k', v')" by (cases x)
  have "\<exists>w. map_of (AList.update k' v' r) k = Some w"
    using Cons.prems by (simp add: update_conv')
  then obtain w where "map_of (AList.update k' v' r) k = Some w" by blast
  then show ?case using Cons.IH by (simp add: x)
qed

lemma clean_updates_no_escalation: "''escalation_status'' \<notin> fst ` set (clean_updates u)"
  unfolding clean_updates_def by (rule delete_notin_dom)

lemma clean_updates_not_blank: "(k, v) \<in> set (clean_updates u) \<Longrightarrow> \<not> blank v"
  unfolding clean_updates_def AList.delete_eq by auto

lemma clean_updates_keys: "fst ` set (clean_updates u) \<subseteq> fst ` set u"
  unfolding clean_updates_def AList.delete_eq by auto

lemma update_eq_length: "length (fst (update_eq tbl items col v)) = length tbl"
  unfolding update_eq_def by simp

lemma update_eq_nth:
  "i < length tbl \<Longrightarrow>
     fst (update_eq tbl items col v) ! i = tbl ! i
     \<or> fst (update_eq tbl items col v) ! i = set_items (tbl ! i) items"
  unfolding update_eq_def by simp

lemma update_eq_column:
  "k \<notin> fst ` set items \<Longrightarrow>
     map (\<lambda>r. map_of r k) (fst (update_eq tbl items col v)) = map (\<lambda>r. map_of r k) tbl"
  unfolding update_eq_def by (simp add: set_items_other)

lemma eq_filter_update_eq:
  "k \<notin> fst ` set items \<Longrightarrow>
     eq_filter (fst (update_eq tbl items col v)) k w
       = map (\<lambda>r. if map_of r col = Some v then set_items r items else r) (eq_filter tbl k w)"
  unfolding update_eq_def eq_filter_def
  by (induction tbl) (simp_all add: set_items_other)

lemma is_escalated_update:
  assumes "''phone_number'' \<notin> fst ` set u"
  shows "is_escalated (fst (update_customer tbl p u)) q = is_escalated tbl q"
proof -
  have pk: "''phone_number'' \<notin> fst ` set (clean_updates u)"
    using assms clean_updates_keys by blast
  have ek: "''escalation_status'' \<notin> fst ` set (clean_updates u)"
    by (rule clean_updates_no_escalation)
  have "eq_filter (fst (update_customer tbl p u)) ''phone_number'' (JStr q)
      = map (\<lambda>r. if map_of r ''phone_number'' = Some (JStr p) then set_items r (clean_updates u) else r)
          (eq_filter tbl ''phone_number'' (JStr q))"
    unfolding update_customer_def using pk by (rule eq_filter_update_eq)
  then show ?thesis
    unfolding is_escalated_def
    by (cases "eq_filter tbl ''phone_number'' (JStr q)")
       (simp_all add: dict_get_def set_items_other [OF ek])
qed

lemma personal_info_keys: "''phone_number'' \<notin> fst ` set (personal_info s)"
  unfolding personal_info_def by simp

lemma update_customer_not_erased:
  assumes "i < length tbl" and "map_of (tbl ! i) k = Some v" and "\<not> blank v"
  shows "\<exists>v'. map_of (fst (update_customer tbl p u) ! i) k = Some v' \<and> \<not> blank v'"
proof -
  let ?r = "fst (update_customer tbl p u) ! i"
  from assms(1) consider "?r = tbl ! i" | "?r = set_items (tbl ! i) (clean_updates u)"
    unfolding update_customer_def using update_eq_nth by blast
  then show ?thesis
  proof cases
    case 1
    with assms show ?thesis by simp
  next
    case 2
    from assms(2) obtain v' where v': "map_of (set_items (tbl ! i) (clean_updates u)) k = Some v'"
      using set_items_defined by blast
    then have "map_of (tbl ! i) k = Some v' \<or> (k, v') \<in> set (clean_updates u)"
      by (rule set_items_Some)
    then have "\<not> blank v'" using assms(2,3) clean_updates_not_blank by auto
    with v' 2 show ?thesis by simp
  qed
qed

text \<open>
  Claim C10. Every call of \<open>update_customer\<close> leaves the stored \<open>escalation_status\<close> of
  every row as it was; persisting the personal information extracted by the router leaves
  the answer of \<open>is_escalated\<close> for every address as it was; and a field that held a
  value that is not blank (not \<open>None\<close>, \<open>[]\<close> or the empty string) holds a value that is
  not blank afterwards.
\<close>

theorem update_customer_keeps_escalation:
  "map (\<lambda>r. map_of r ''escalation_status'') (fst (update_customer tbl p u))
     = map (\<lambda>r. map_of r ''escalation_status'') tbl
   \<and> is_escalated (fst (update_customer tbl p (personal_info s))) q = is_escalated tbl q
   \<and> (i < length tbl \<and> map_of (tbl ! i) k = Some v \<and> \<not> blank v \<longrightarrow>
        (\<exists>v'. map_of (fst (update_customer tbl p u) ! i) k = Some v' \<and> \<not> blank v'))"
proof (intro conjI impI)
  show "map (\<lambda>r. map_of r ''escalation_status'') (fst (update_customer tbl p u))
     = map (\<lambda>r. map_of r ''escalation_status'') tbl"
    unfolding update_customer_def
    using clean_updates_no_escalation by (rule update_eq_column)
  show "is_escalated (fst (update_customer tbl p (personal_info s))) q = is_escalated tbl q"
    using personal_info_keys by (rule is_escalated_update)
  assume "i < length tbl \<and> map_of (tbl ! i) k = Some v \<and> \<not> blank v"
  then show "\<exists>v'. map_of (fst (update_customer tbl p u) ! i) k = Some v' \<and> \<not> blank v'"
    using update_customer_not_erased by blast
qed

text \<open>
  The theorem at an escalated customer named Ann and an update that carries an empty name,
  an email and \<open>escalation_status = False\<close>: the name and the flag stay, the email is
  written.
\<close>

theorem update_customer_keeps_escalation_witness:
  "map_of ([example_customer] ! 0) ''customer_name'' = Some (JStr ''Ann'')
   \<and> \<not> blank (JStr ''Ann'')
   \<and> (\<exists>v'. map_of (fst (update_customer [example_customer] ''923001234567''
                 [(''customer_name'', JStr []), (''email'', JStr ''ann@example.com''),
                  (''escalation_status'', JBool False)]) ! 0) ''customer_name'' = Some v'
          \<and> \<not> blank v')
   \<and> map (\<lambda>r. map_of r ''escalation_status'')
        (fst (update_customer [example_customer] ''923001234567''
                 [(''customer_name'', JStr []), (''email'', JStr ''ann@example.com''),
                  (''escalation_status'', JBool False)]))
       = [Some (JBool True)]
   \<and> map_of (fst (update_customer [example_customer] ''923001234567''
                 [(''customer_name'', JStr []), (''email'', JStr ''ann@example.com''),
                  (''escalation_status'', JBool False)]) ! 0) ''email''
       = Some (JStr ''ann@example.com'')"
proof -
  let ?u = "[(''customer_name'', JStr []), (''email'', JStr ''ann@example.com''),
             (''escalation_status'', JBool False)]"
  have a: "map_of ([example_customer] ! 0) ''customer_name'' = Some (JStr ''Ann'')"
    by (simp add: example_customer_def)
  have b: "\<not> blank (JStr ''Ann'')" by (simp add: blank_def)
  have i: "(0::nat) < length [example_customer]" by simp
  from update_customer_keeps_escalation
         [of "[example_customer]" "''923001234567''" ?u _ _ 0 "''customer_name''" "JStr ''Ann''"]
       a b i
  have c: "\<exists>v'. map_of (fst (update_customer [example_customer] ''923001234567'' ?u) ! 0)
             ''customer_name'' = Some v' \<and> \<not> blank v'"
    and d: "map (\<lambda>r. map_of r ''escalation_status'')
              (fst (update_customer [example_customer] ''923001234567'' ?u))
            = map (\<lambda>r. map_of r ''escalation_status'') [example_customer]"
    by blast+
  have d': "map (\<lambda>r. map_of r ''escalation_status'')
              (fst (update_customer [example_customer] ''923001234567'' ?u))
            = [Some (JBool True)]"
    unfolding d by (simp add: example_customer_def)
  have e: "map_of (fst (update_customer [example_customer] ''923001234567'' ?u) ! 0) ''email''
       = Some (JStr ''ann@example.com'')"
    by (simp add: example_customer_def update_customer_def update_eq_def clean_updates_def
        blank_def set_items_def eq_filter_def AList.delete_eq)
  from a b c d' e show ?thesis by (intro conjI)
qed

section \<open>Crediting a referral\<close>

lemma set_items_single: "set_items r [(k, v)] = AList.update k v r"
  by (simp add: set_items_def)

lemma eq_filter_update_eq_same:
  "col \<notin> fst ` set items \<Longrightarrow>
     eq_filter (fst (update_eq tbl items col v)) col v
       = map (\<lambda>r. set_items r items) (eq_filter tbl col v)"
  unfolding update_eq_def eq_filter_def
  by (induction tbl) (simp_all add: set_items_other)

lemma get_referral_after_update:
  "k \<noteq> ''referral_code'' \<Longrightarrow>
     get_referral_by_code (fst (update_eq tbl [(k, v)] ''referral_code'' c)) c
       = map_option (AList.update k v) (get_referral_by_code tbl c)"
proof -
  assume "k \<noteq> ''referral_code''"
  then have "''referral_code'' \<notin> fst ` set [(k, v)]" by simp
  then have "eq_filter (fst (update_eq tbl [(k, v)] ''referral_code'' c)) ''referral_code'' c
      = map (\<lambda>r. set_items r [(k, v)]) (eq_filter tbl ''referral_code'' c)"
    by (rule eq_filter_update_eq_same)
  then show ?thesis
    unfolding get_referral_by_code_def
    by (cases "eq_filter tbl ''referral_code'' c") (simp_all add: set_items_single)
qed

lemma add_user_list:
  assumes "get_referral_by_code tbl c = Some r"
    and "map_of r ''referred_users'' = Some (JList us)"
  shows "add_user_to_referral e tbl x c
      = fst (update_eq tbl [(''referred_users'', JList (us @ [referred_user x (now e)]))]
               ''referral_code'' c)"
  using assms unfolding add_user_to_referral_def add_referred_user_def by simp

lemma add_user_found:
  assumes "get_referral_by_code tbl c = Some r"
    and "map_of r ''referred_users'' = Some (JList us)"
  shows "get_referral_by_code (add_user_to_referral e tbl x c) c
      = Some (AList.update ''referred_users'' (JList (us @ [referred_user x (now e)])) r)"
  unfolding add_user_list [OF assms] using assms(1)
  by (simp add: get_referral_after_update)

lemma update_referral_int:
  assumes "get_referral_by_code tbl c = Some r"
    and "map_of r ''total_points'' = Some (JInt n)"
  shows "update_referral tbl c
      = Inr (fst (update_eq tbl [(''total_points'', JInt (n + 1))] ''referral_code'' c))"
  using assms unfolding update_referral_def dict_item_def py_add1_def by simp

lemma referrals_outbox_update [simp]: "referrals (st\<lparr>outbox := x\<rparr>) = referrals st"
  by simp

lemma increment_list_int:
  assumes r: "get_referral_by_code (referrals st) c = Some r"
    and us: "map_of r ''referred_users'' = Some (JList us)"
    and n: "map_of r ''total_points'' = Some (JInt n)"
  shows "referrals (increment_referral_count e c x b st)
     = fst (update_eq (add_user_to_referral e (referrals st) x c)
              [(''total_points'', JInt (n + 1))] ''referral_code'' c)"
proof -
  let ?r1 = "AList.update ''referred_users'' (JList (us @ [referred_user x (now e)])) r"
  let ?t1 = "add_user_to_referral e (referrals st) x c"
  have f1: "get_referral_by_code ?t1 c = Some ?r1"
    using r us by (rule add_user_found)
  have ne: "?r1 \<noteq> []" by simp
  have tp: "map_of ?r1 ''total_points'' = Some (JInt n)"
    using n by (simp add: update_conv')
  have loc: "py_add1 (dict_get ?r1 ''total_points'' (JInt 0)) = Inr (JInt (n + 1))"
    using tp by (simp add: dict_get_def py_add1_def)
  have upd: "update_referral ?t1 c
      = Inr (fst (update_eq ?t1 [(''total_points'', JInt (n + 1))] ''referral_code'' c))"
    using f1 tp by (rule update_referral_int)
  show ?thesis
    unfolding increment_referral_count_def Let_def
    by (simp add: f1 ne loc upd del: AList.update.simps update_nonempty)
qed

text \<open>
  Claim C2. For a referral code with a stored record whose \<open>referred_users\<close> is a list and
  whose \<open>total_points\<close> is an integer, one call of the crediting operation appends exactly
  one entry, the phone number with the time stamp, to the list of the record and raises
  the stored \<open>total_points\<close> by exactly one.
\<close>

theorem credit_appends_one_entry_and_one_point:
  assumes r: "get_referral_by_code (referrals st) c = Some r"
    and us: "map_of r ''referred_users'' = Some (JList us)"
    and n: "map_of r ''total_points'' = Some (JInt n)"
  shows "\<exists>r'. get_referral_by_code (referrals (increment_referral_count e c x b st)) c = Some r'
      \<and> map_of r' ''referred_users'' = Some (JList (us @ [referred_user x (now e)]))
      \<and> map_of r' ''total_points'' = Some (JInt (n + 1))"
proof -
  let ?r1 = "AList.update ''referred_users'' (JList (us @ [referred_user x (now e)])) r"
  let ?r2 = "AList.update ''total_points'' (JInt (n + 1)) ?r1"
  have f1: "get_referral_by_code (add_user_to_referral e (referrals st) x c) c = Some ?r1"
    using r us by (rule add_user_found)
  have "get_referral_by_code (referrals (increment_referral_count e c x b st)) c = Some ?r2"
    unfolding increment_list_int [OF r us n]
    by (simp add: get_referral_after_update f1 del: AList.update.simps)
  moreover have "map_of ?r2 ''referred_users'' = Some (JList (us @ [referred_user x (now e)]))"
    by (simp add: update_conv' del: AList.update.simps)
  moreover have "map_of ?r2 ''total_points'' = Some (JInt (n + 1))"
    by (simp add: update_conv' del: AList.update.simps)
  ultimately show ?thesis by blast
qed

text \<open>
  The theorem at the record of \<open>ABCDEF\<close> with an empty list and no points, credited once
  for \<open>923001234567\<close>: one entry and one point.
\<close>

theorem credit_appends_one_entry_and_one_point_witness:
  "get_referral_by_code (referrals (example_state [] [example_referral (JList [])]))
      (JStr ''ABCDEF'') = Some (example_referral (JList []))
   \<and> map_of (example_referral (JList [])) ''referred_users'' = Some (JList [])
   \<and> map_of (example_referral (JList [])) ''total_points'' = Some (JInt 0)
   \<and> (\<exists>r'. get_referral_by_code
              (referrals (increment_referral_count example_env (JStr ''ABCDEF'') ''923001234567''
                 True (example_state [] [example_referral (JList [])]))) (JStr ''ABCDEF'')
             = Some r'
          \<and> map_of r' ''referred_users''
             = Some (JList [JObj [(''phone_number'', JStr ''923001234567''),
                                  (''time_stamp'', JStr ''2025-01-01 12:00:00'')]])
          \<and> map_of r' ''total_points'' = Some (JInt 1))"
proof -
  let ?st = "example_state [] [example_referral (JList [])]"
  have a: "get_referral_by_code (referrals ?st) (JStr ''ABCDEF'') = Some (example_referral (JList []))"
    by (simp add: example_state_def example_referral_def get_referral_by_code_def eq_filter_def)
  have b: "map_of (example_referral (JList [])) ''referred_users'' = Some (JList [])"
    by (simp add: example_referral_def)
  have c: "map_of (example_referral (JList [])) ''total_points'' = Some (JInt 0)"
    by (simp add: example_referral_def)
  from credit_appends_one_entry_and_one_point [OF a b c, of example_env "''923001234567''" True]
  have "\<exists>r'. get_referral_by_code
              (referrals (increment_referral_count example_env (JStr ''ABCDEF'') ''923001234567''
                 True ?st)) (JStr ''ABCDEF'') = Some r'
          \<and> map_of r' ''referred_users''
             = Some (JList [JObj [(''phone_number'', JStr ''923001234567''),
                                  (''time_stamp'', JStr ''2025-01-01 12:00:00'')]])
          \<and> map_of r' ''total_points'' = Some (JInt 1)"
    by (simp add: referred_user_def example_env_def)
  with a b c show ?thesis by (intro conjI)
qed

section \<open>The credit check\<close>

lemma scan_users_hit:
  "JObj d \<in> set us \<Longrightarrow> dict_get d ''phone_number'' JNull = JStr x \<Longrightarrow>
     scan_users us x \<noteq> Inr False"
proof (induction us)
  case Nil
  then show ?case by simp
next
  case (Cons u us)
  show ?case
  proof (cases u)
    case (JObj d')
    with Cons show ?thesis by auto
  qed simp_all
qed

lemma check_not_found: "get_referral_by_code tbl c = None \<Longrightarrow> check_existing_referral tbl x c"
  unfolding check_existing_referral_def by simp

lemma check_empty_row: "get_referral_by_code tbl c = Some [] \<Longrightarrow> check_existing_referral tbl x c"
  unfolding check_existing_referral_def by simp

lemma check_not_iterable:
  "get_referral_by_code tbl c = Some r \<Longrightarrow>
     py_iter (dict_get r ''referred_users'' (JList [])) = Inl err \<Longrightarrow>
     check_existing_referral tbl x c"
  unfolding check_existing_referral_def by simp

lemma check_scan_raises:
  "get_referral_by_code tbl c = Some r \<Longrightarrow>
     py_iter (dict_get r ''referred_users'' (JList [])) = Inr us \<Longrightarrow>
     scan_users us x = Inl err \<Longrightarrow>
     check_existing_referral tbl x c"
  unfolding check_existing_referral_def by simp

lemma check_listed:
  assumes "get_referral_by_code tbl c = Some r"
    and "map_of r ''referred_users'' = Some (JList us)"
    and "JObj d \<in> set us"
    and "dict_get d ''phone_number'' JNull = JStr x"
  shows "check_existing_referral tbl x c"
proof -
  have "scan_users us x \<noteq> Inr False" using assms(3,4) by (rule scan_users_hit)
  then have "(case scan_users us x of Inl e \<Rightarrow> True | Inr b \<Rightarrow> b)"
    by (cases "scan_users us x") auto
  then show ?thesis
    using assms(1,2) unfolding check_existing_referral_def
    by (simp add: dict_get_def py_iter_def)
qed

lemma update_referral_shape:
  "update_referral tbl c = Inr t \<Longrightarrow>
     \<exists>v. t = fst (update_eq tbl [(''total_points'', v)] ''referral_code'' c)"
  unfolding update_referral_def
  by (auto split: option.splits sum.splits)

lemma increment_found:
  assumes r: "get_referral_by_code (referrals st) c = Some r"
    and us: "map_of r ''referred_users'' = Some (JList us)"
  shows "\<exists>r'. get_referral_by_code (referrals (increment_referral_count e c x b st)) c = Some r'
      \<and> map_of r' ''referred_users'' = Some (JList (us @ [referred_user x (now e)]))"
proof -
  let ?u = "referred_user x (now e)"
  let ?r1 = "AList.update ''referred_users'' (JList (us @ [?u])) r"
  let ?t1 = "add_user_to_referral e (referrals st) x c"
  let ?st1 = "st\<lparr>referrals := ?t1\<rparr>"
  have f1: "get_referral_by_code ?t1 c = Some ?r1"
    using r us by (rule add_user_found)
  have m1: "map_of ?r1 ''referred_users'' = Some (JList (us @ [?u]))"
    by (simp add: update_conv' del: AList.update.simps)
  have after_update: "\<exists>r'. get_referral_by_code t c = Some r'
      \<and> map_of r' ''referred_users'' = Some (JList (us @ [?u]))"
    if "update_referral ?t1 c = Inr t" for t
  proof -
    from that obtain v where "t = fst (update_eq ?t1 [(''total_points'', v)] ''referral_code'' c)"
      using update_referral_shape by blast
    then have "get_referral_by_code t c = Some (AList.update ''total_points'' v ?r1)"
      by (simp add: get_referral_after_update f1 del: AList.update.simps)
    moreover have "map_of (AList.update ''total_points'' v ?r1) ''referred_users''
        = Some (JList (us @ [?u]))"
      by (simp add: update_conv' del: AList.update.simps)
    ultimately show ?thesis by blast
  qed
  have "referrals (increment_referral_count e c x b st) = ?t1
      \<or> (\<exists>t. update_referral ?t1 c = Inr t \<and> referrals (increment_referral_count e c x b st) = t)"
    unfolding increment_referral_count_def Let_def
    by (simp add: f1 del: AList.update.simps split: sum.splits)
  then show ?thesis using f1 m1 after_update by metis
qed

lemma check_after_credit:
  assumes r: "get_referral_by_code (referrals st) c = Some r"
    and us: "map_of r ''referred_users'' = Some (JList us)"
  shows "check_existing_referral (referrals (credit_step e x c st)) x c"
proof (cases "check_existing_referral (referrals st) x c")
  case True
  then show ?thesis by (simp add: credit_step_def)
next
  case False
  let ?u = "referred_user x (now e)"
  from increment_found [OF r us] obtain r' where
    r': "get_referral_by_code (referrals (increment_referral_count e c x True st)) c = Some r'"
        "map_of r' ''referred_users'' = Some (JList (us @ [?u]))"
    by blast
  have "JObj [(''phone_number'', JStr x), (''time_stamp'', JStr (now e))] \<in> set (us @ [?u])"
    by (simp add: referred_user_def)
  moreover have "dict_get [(''phone_number'', JStr x), (''time_stamp'', JStr (now e))]
      ''phone_number'' JNull = JStr x"
    by (simp add: dict_get_def)
  ultimately have "check_existing_referral (referrals (increment_referral_count e c x True st)) x c"
    using r' check_listed by blast
  with False show ?thesis by (simp add: credit_step_def)
qed

lemma credit_step_skips:
  "check_existing_referral (referrals st) x c \<Longrightarrow> credit_step e x c st = st"
  by (simp add: credit_step_def)

lemma credit_step_idem:
  assumes "get_referral_by_code (referrals st) c = Some r"
    and "map_of r ''referred_users'' = Some (JList us)"
  shows "credit_step e x c (credit_step e x c st) = credit_step e x c st"
  using check_after_credit [OF assms] by (rule credit_step_skips)

lemma get_referral_append:
  "get_referral_by_code tbl c = Some r \<Longrightarrow> get_referral_by_code (tbl @ rows) c = Some r"
  unfolding get_referral_by_code_def eq_filter_def
  by (auto split: list.splits)

lemma workflow_keeps_record:
  assumes x: "extract_codes m = (Some cc, Some rc)"
    and r: "get_referral_by_code (referrals st) (JStr rc) = Some r"
    and chk: "check_existing_referral (referrals st) x (JStr rc)"
  shows "get_referral_by_code (referrals (fst (referral_workflow e m x gc st))) (JStr rc) = Some r"
proof -
  have cs: "credit_step e x (opt_str (Some rc)) st = st"
    using chk by (simp add: credit_step_def opt_str_def)
  have app: "get_referral_by_code (add_referral (referrals st) new) (JStr rc) = Some r" for new
    unfolding add_referral_def insert_row_def using r by (simp add: get_referral_append)
  show ?thesis
    unfolding referral_workflow_def Let_def
    by (simp add: x cs r app split: option.splits list.splits sum.splits)
qed

lemmas example_simps = example_env_def example_referral_def example_state_def
  check_existing_referral_def get_referral_by_code_def eq_filter_def dict_get_def py_iter_def
  credit_step_def increment_referral_count_def add_user_to_referral_def add_referred_user_def
  update_eq_def set_items_def referred_user_def py_add1_def update_referral_def dict_item_def
  referred_users_valid_def ReferredUserSchema_valid_def is_str_def

text \<open>
  Where the check does fail closed. It answers \<open>already credited\<close> when no record is
  stored for the code; when the stored \<open>referred_users\<close> is \<open>null\<close>, a number, a boolean, a
  string that is not empty or an object that is not empty (the loop cannot start, or its
  first item has no \<open>get\<close>); when the stored list holds an entry that is no object; and
  when the stored list holds an entry whose \<open>phone_number\<close> is the address. When it answers
  \<open>already credited\<close> the crediting step changes nothing and the workflow leaves the record
  of the code as it was. For a record whose \<open>referred_users\<close> is a list, the check answers
  \<open>already credited\<close> after one crediting step, so a further step for the same address
  changes nothing.
\<close>

lemma scan_users_non_object:
  "u \<in> set us \<Longrightarrow> (\<forall>d. u \<noteq> JObj d) \<Longrightarrow> scan_users us x \<noteq> Inr False"
proof (induction us)
  case Nil
  then show ?case by simp
next
  case (Cons w ws)
  show ?case
  proof (cases w)
    case (JObj d')
    with Cons show ?thesis by auto
  qed simp_all
qed

lemma check_non_object_entry:
  assumes "get_referral_by_code tbl c = Some r"
    and "map_of r ''referred_users'' = Some (JList us)"
    and "u \<in> set us" and "\<forall>d. u \<noteq> JObj d"
  shows "check_existing_referral tbl x c"
proof -
  have "scan_users us x \<noteq> Inr False" using assms(3,4) by (rule scan_users_non_object)
  then have "(case scan_users us x of Inl e \<Rightarrow> True | Inr b \<Rightarrow> b)"
    by (cases "scan_users us x") auto
  then show ?thesis
    using assms(1,2) unfolding check_existing_referral_def
    by (simp add: dict_get_def py_iter_def)
qed

lemma check_not_a_list:
  assumes "get_referral_by_code tbl c = Some r"
    and "map_of r ''referred_users'' = Some v"
    and "v = JNull \<or> (\<exists>b. v = JBool b) \<or> (\<exists>n. v = JInt n)
         \<or> (\<exists>ch s. v = JStr (ch # s)) \<or> (\<exists>kv d. v = JObj (kv # d))"
  shows "check_existing_referral tbl x c"
  using assms unfolding check_existing_referral_def
  by (auto simp: dict_get_def py_iter_def split: prod.splits)

lemma credit_check_fail_closed_cases:
  "(get_referral_by_code tbl c = None \<longrightarrow> check_existing_referral tbl x c)
   \<and> (get_referral_by_code tbl c = Some r \<and> map_of r ''referred_users'' = Some v
        \<and> (v = JNull \<or> (\<exists>b. v = JBool b) \<or> (\<exists>n. v = JInt n)
             \<or> (\<exists>ch s. v = JStr (ch # s)) \<or> (\<exists>kv d. v = JObj (kv # d)))
        \<longrightarrow> check_existing_referral tbl x c)
   \<and> (get_referral_by_code tbl c = Some r \<and> map_of r ''referred_users'' = Some (JList us)
        \<and> u \<in> set us \<and> (\<forall>d. u \<noteq> JObj d)
        \<longrightarrow> check_existing_referral tbl x c)
   \<and> (get_referral_by_code tbl c = Some r
        \<and> map_of r ''referred_users'' = Some (JList us)
        \<and> JObj d \<in> set us \<and> dict_get d ''phone_number'' JNull = JStr x
        \<longrightarrow> check_existing_referral tbl x c)
   \<and> (check_existing_referral (referrals st) x c \<longrightarrow> credit_step e x c st = st)
   \<and> (extract_codes m = (Some cc, Some rc)
        \<and> get_referral_by_code (referrals st) (JStr rc) = Some r
        \<and> check_existing_referral (referrals st) x (JStr rc)
        \<longrightarrow> get_referral_by_code (referrals (fst (referral_workflow e m x gc st))) (JStr rc)
              = Some r)
   \<and> (get_referral_by_code (referrals st) c = Some r
        \<and> map_of r ''referred_users'' = Some (JList us)
        \<longrightarrow> check_existing_referral (referrals (credit_step e x c st)) x c
            \<and> credit_step e x c (credit_step e x c st) = credit_step e x c st)"
proof (intro conjI impI)
  show "check_existing_referral tbl x c" if "get_referral_by_code tbl c = None"
    using that by (rule check_not_found)
  show "check_existing_referral tbl x c"
    if "get_referral_by_code tbl c = Some r \<and> map_of r ''referred_users'' = Some v
        \<and> (v = JNull \<or> (\<exists>b. v = JBool b) \<or> (\<exists>n. v = JInt n)
             \<or> (\<exists>ch s. v = JStr (ch # s)) \<or> (\<exists>kv d. v = JObj (kv # d)))"
    using that check_not_a_list by blast
  show "check_existing_referral tbl x c"
    if "get_referral_by_code tbl c = Some r \<and> map_of r ''referred_users'' = Some (JList us)
        \<and> u \<in> set us \<and> (\<forall>d. u \<noteq> JObj d)"
    using that check_non_object_entry by blast
  show "check_existing_referral tbl x c"
    if "get_referral_by_code tbl c = Some r
        \<and> map_of r ''referred_users'' = Some (JList us)
        \<and> JObj d \<in> set us \<and> dict_get d ''phone_number'' JNull = JStr x"
    using that check_listed by blast
  show "credit_step e x c st = st" if "check_existing_referral (referrals st) x c"
    using that by (rule credit_step_skips)
  show "get_referral_by_code (referrals (fst (referral_workflow e m x gc st))) (JStr rc) = Some r"
    if "extract_codes m = (Some cc, Some rc)
        \<and> get_referral_by_code (referrals st) (JStr rc) = Some r
        \<and> check_existing_referral (referrals st) x (JStr rc)"
    using that workflow_keeps_record by blast
  show "check_existing_referral (referrals (credit_step e x c st)) x c"
    if "get_referral_by_code (referrals st) c = Some r
        \<and> map_of r ''referred_users'' = Some (JList us)"
    using that check_after_credit by blast
  show "credit_step e x c (credit_step e x c st) = credit_step e x c st"
    if "get_referral_by_code (referrals st) c = Some r
        \<and> map_of r ''referred_users'' = Some (JList us)"
    using that credit_step_idem by blast
qed

text \<open>
  The check evaluated where it fails closed: a store without the code, a record whose list
  is \<open>null\<close>, a list with the number 5 as its entry, a list that holds the address; and the
  record of \<open>ABCDEF\<close> with an empty list, where the first attempt for \<open>923001234567\<close> is
  not yet credited and a second attempt changes nothing.
\<close>

lemma credit_check_fail_closed_examples:
  "check_existing_referral [] ''923001234567'' (JStr ''ABCDEF'')
   \<and> check_existing_referral [example_referral JNull] ''923001234567'' (JStr ''ABCDEF'')
   \<and> check_existing_referral [example_referral (JList [JInt 5])] ''923001234567''
        (JStr ''ABCDEF'')
   \<and> check_existing_referral
        [example_referral (JList [referred_user ''923001234567'' ''2025-01-01 12:00:00''])]
        ''923001234567'' (JStr ''ABCDEF'')
   \<and> \<not> check_existing_referral [example_referral (JList [])] ''923001234567''
         (JStr ''ABCDEF'')
   \<and> credit_step example_env ''923001234567'' (JStr ''ABCDEF'')
        (credit_step example_env ''923001234567'' (JStr ''ABCDEF'')
           (example_state [] [example_referral (JList [])]))
       = credit_step example_env ''923001234567'' (JStr ''ABCDEF'')
           (example_state [] [example_referral (JList [])])"
proof -
  let ?x = "''923001234567''"
  let ?c = "JStr ''ABCDEF''"
  let ?st = "example_state [] [example_referral (JList [])]"
  have a: "check_existing_referral [] ?x ?c" by (simp add: example_simps)
  have b: "check_existing_referral [example_referral JNull] ?x ?c" by (simp add: example_simps)
  have c: "check_existing_referral [example_referral (JList [JInt 5])] ?x ?c"
    by (simp add: example_simps)
  have d: "check_existing_referral
        [example_referral (JList [referred_user ''923001234567'' ''2025-01-01 12:00:00''])] ?x ?c"
    by (simp add: example_simps)
  have f: "\<not> check_existing_referral [example_referral (JList [])] ?x ?c"
    by (simp add: example_simps)
  have g1: "get_referral_by_code (referrals ?st) ?c = Some (example_referral (JList []))"
    by (simp add: example_state_def example_referral_def get_referral_by_code_def eq_filter_def)
  have g2: "map_of (example_referral (JList [])) ''referred_users'' = Some (JList [])"
    by (simp add: example_referral_def)
  have i: "credit_step example_env ?x ?c (credit_step example_env ?x ?c ?st)
            = credit_step example_env ?x ?c ?st"
    using g1 g2 by (rule credit_step_idem)
  from a b c d f i show ?thesis by (intro conjI)
qed

text \<open>
  Claim C1 at two failing inputs: stored data that is malformed without making the check
  raise. The \<open>except ValidationError\<close> branch of \<open>_check_existing_referral\<close> (it logs that
  the referral data in the store is invalid and answers \<open>True\<close>) can never be taken, because
  the fetched row is not validated against \<open>ReferralSchema\<close>. So an entry without
  \<open>phone_number\<close> is skipped and the check answers \<open>not credited\<close>; and with
  \<open>referred_users\<close> stored as an empty object the check answers \<open>not credited\<close> on every
  attempt, the entry is never recorded, and two attempts for the same address raise
  \<open>total_points\<close> from 0 to 2.
\<close>

theorem credit_check_misses_malformed_record:
  "\<not> referred_users_valid (JList [JObj [(''time_stamp'', JStr ''t'')]])
   \<and> \<not> check_existing_referral
         [example_referral (JList [JObj [(''time_stamp'', JStr ''t'')]])]
         ''923001234567'' (JStr ''ABCDEF'')
   \<and> \<not> referred_users_valid (JObj [])
   \<and> \<not> check_existing_referral [example_referral (JObj [])] ''923001234567'' (JStr ''ABCDEF'')
   \<and> \<not> check_existing_referral
         (referrals (credit_step example_env ''923001234567'' (JStr ''ABCDEF'')
            (example_state [] [example_referral (JObj [])])))
         ''923001234567'' (JStr ''ABCDEF'')
   \<and> map_option (\<lambda>r. (map_of r ''total_points'', map_of r ''referred_users''))
        (get_referral_by_code
           (referrals (credit_step example_env ''923001234567'' (JStr ''ABCDEF'')
              (credit_step example_env ''923001234567'' (JStr ''ABCDEF'')
                 (example_state [] [example_referral (JObj [])]))))
           (JStr ''ABCDEF''))
       = Some (Some (JInt 2), Some (JObj []))"
proof -
  have a: "\<not> referred_users_valid (JList [JObj [(''time_stamp'', JStr ''t'')]])"
    by (simp add: example_simps)
  have b: "\<not> check_existing_referral
         [example_referral (JList [JObj [(''time_stamp'', JStr ''t'')]])]
         ''923001234567'' (JStr ''ABCDEF'')"
    by (simp add: example_simps)
  have c: "\<not> referred_users_valid (JObj [])"
    by (simp add: example_simps)
  have d: "\<not> check_existing_referral [example_referral (JObj [])] ''923001234567'' (JStr ''ABCDEF'')"
    by (simp add: example_simps)
  have d': "\<not> check_existing_referral
         (referrals (credit_step example_env ''923001234567'' (JStr ''ABCDEF'')
            (example_state [] [example_referral (JObj [])])))
         ''923001234567'' (JStr ''ABCDEF'')"
    by (simp add: example_simps)
  have e: "map_option (\<lambda>r. (map_of r ''total_points'', map_of r ''referred_users''))
        (get_referral_by_code
           (referrals (credit_step example_env ''923001234567'' (JStr ''ABCDEF'')
              (credit_step example_env ''923001234567'' (JStr ''ABCDEF'')
                 (example_state [] [example_referral (JObj [])]))))
           (JStr ''ABCDEF''))
       = Some (Some (JInt 2), Some (JObj []))"
    by (simp add: example_simps)
  from a b c d d' e show ?thesis by (intro conjI)
qed

section \<open>Identity resolution\<close>

lemma merge_path_raises:
  assumes "get_customer_by_phone e tbl p = Inr (Some d)"
    and "incomplete d"
    and "quickbook e p = Inr (Some c)"
  shows "get_or_create_customer e p tbl = (fst (update_customer tbl p c), Inl ValidationError)"
  unfolding get_or_create_customer_def
  by (simp add: assms model_validate_def split: prod.splits)

lemma set_items_writes:
  "distinct (map fst items) \<Longrightarrow> (k, v) \<in> set items \<Longrightarrow> map_of (set_items r items) k = Some v"
proof (induction items arbitrary: r)
  case Nil
  then show ?case by simp
next
  case (Cons x xs)
  obtain k' v' where x: "x = (k', v')" by (cases x)
  have step: "set_items r (x # xs) = set_items (AList.update k' v' r) xs"
    by (simp add: set_items_def x)
  show ?case
  proof (cases "(k, v) = (k', v')")
    case True
    with Cons.prems x have "k \<notin> fst ` set xs" by auto
    then have "map_of (set_items (AList.update k' v' r) xs) k = map_of (AList.update k' v' r) k"
      by (rule set_items_other)
    with True show ?thesis unfolding step by (simp add: update_conv')
  next
    case False
    with Cons.prems x have "distinct (map fst xs)" "(k, v) \<in> set xs" by auto
    then show ?thesis unfolding step by (rule Cons.IH)
  qed
qed

lemma update_customer_row:
  assumes "i < length tbl" and "map_of (tbl ! i) ''phone_number'' = Some (JStr p)"
  shows "fst (update_customer tbl p u) ! i = set_items (tbl ! i) (clean_updates u)"
  using assms unfolding update_customer_def update_eq_def by simp

lemma clean_updates_distinct: "distinct (map fst u) \<Longrightarrow> distinct (map fst (clean_updates u))"
  unfolding clean_updates_def by (simp add: distinct_delete distinct_map_filter)

lemma clean_updates_member:
  "(k, v) \<in> set u \<Longrightarrow> \<not> blank v \<Longrightarrow> k \<noteq> ''escalation_status'' \<Longrightarrow> (k, v) \<in> set (clean_updates u)"
  unfolding clean_updates_def AList.delete_eq by auto

lemma update_customer_merges:
  assumes "i < length tbl" and "map_of (tbl ! i) ''phone_number'' = Some (JStr p)"
    and "distinct (map fst u)" and "(k, v) \<in> set u" and "\<not> blank v"
    and "k \<noteq> ''escalation_status''"
  shows "map_of (fst (update_customer tbl p u) ! i) k = Some v"
  unfolding update_customer_row [OF assms(1,2)]
  using clean_updates_distinct [OF assms(3)] clean_updates_member [OF assms(4,5,6)]
  by (rule set_items_writes)

lemma shopify_kwargs_shape:
  assumes "shopify_kwargs p sc = Inr kw"
  shows "distinct (map fst kw)
     \<and> (''customer_type'', JStr DEFAULT_CUSTOMER_TYPE) \<in> set kw
     \<and> (''total_spend'', py_or (dict_get sc ''totalSpent'' JNull) (JInt DEFAULT_TOTAL_SPEND)) \<in> set kw"
  using assms unfolding shopify_kwargs_def Let_def
  by (auto split: sum.splits json.splits)

lemma storefront_seed:
  assumes "get_customer_by_phone e tbl p = Inr None"
    and "quickbook e p = Inr None"
    and "shopify e p = Inr (Some (x # xs))"
    and kw: "shopify_kwargs p (x # xs) = Inr kw"
    and ok: "schema_accepts e (set_items (schema_defaults e) kw)"
  shows "\<exists>r. get_or_create_customer e p tbl = (tbl @ [r], Inr r)
      \<and> map_of r ''customer_type'' = Some (JStr DEFAULT_CUSTOMER_TYPE)
      \<and> map_of r ''total_spend''
          = Some (py_or (dict_get (x # xs) ''totalSpent'' JNull) (JInt DEFAULT_TOTAL_SPEND))"
proof -
  let ?r = "set_items (schema_defaults e) kw"
  have "get_or_create_customer e p tbl = (tbl @ [?r], Inr ?r)"
    unfolding get_or_create_customer_def
    by (simp add: assms try_shopify_def create_customer_def CustomerSchema_def add_customer_def
        insert_row_def model_validate_def)
  moreover have "map_of ?r ''customer_type'' = Some (JStr DEFAULT_CUSTOMER_TYPE)"
    using shopify_kwargs_shape [OF kw] set_items_writes by blast
  moreover have "map_of ?r ''total_spend''
      = Some (py_or (dict_get (x # xs) ''totalSpent'' JNull) (JInt DEFAULT_TOTAL_SPEND))"
    using shopify_kwargs_shape [OF kw] set_items_writes by blast
  ultimately show ?thesis by blast
qed

lemma py_or_absent: "py_or JNull (JInt DEFAULT_TOTAL_SPEND) = JInt 0"
  by (simp add: py_or_def DEFAULT_TOTAL_SPEND_def)

lemmas workflow_simps = example_env_def example_state_def example_business_def example_routing_def
  execute_workflow_def respond_def route_to_agent_def persist_personal_info_def select_agent_def
  get_or_create_customer_def get_customer_by_phone_def model_validate_def incomplete_def attr_def
  dict_get_def eq_filter_def is_escalated_def format_context_def recent_chat_history_def
  log_customer_message_def log_agent_message_def stream_to_web_socket_def send_whatsapp_message_def
  truthy_str_def truthy_strs_def extract_codes_def match_here_def lit_def startswith_def

text \<open>
  Claim C5 at a failing input. The local record of \<open>923001234567\<close> has no email and the
  accounting system returns \<open>ann@example.com\<close>. The update writes the email (and the other
  values that are not blank; the empty company name is dropped and the escalation flag
  stays), but \<open>update_customer\<close> returns \<open>response.data\<close>, the list of updated rows, where
  \<open>add_customer\<close> returns \<open>response.data[0]\<close>; the final
  \<open>CustomerSchema.model_validate\<close> is given that list and raises, so no profile is resolved.
\<close>

theorem merge_with_accounting_data_raises:
  "get_or_create_customer example_accounting ''923001234567'' [example_customer]
   = ([[(''phone_number'', JStr ''923001234567''), (''customer_name'', JStr ''Ann Lee''),
        (''email'', JStr ''ann@example.com''), (''escalation_status'', JBool True),
        (''customer_quickbook_id'', JStr ''42''), (''customer_type'', JStr ''B2B''),
        (''is_active'', JBool True)]],
      Inl ValidationError)"
  by (simp add: workflow_simps example_accounting_def example_quickbook_def example_customer_def
      update_customer_def update_eq_def clean_updates_def blank_def set_items_def AList.delete_eq)

section \<open>Routing and the workflow of one message\<close>

lemma customers_log_customer [simp]:
  "customers (log_customer_message e p raw v st) = customers st"
  by (simp add: log_customer_message_def)

lemma customers_stream [simp]:
  "customers (stream_to_web_socket e p msg sndr st) = customers st"
  by (simp add: stream_to_web_socket_def)

lemma execute_escalated:
  assumes g: "get_or_create_customer e p (customers st) = (tbl, Inr cust)"
    and esc: "is_escalated tbl p"
  shows "execute_workflow e (Some (raw, p)) v st
     = Inr ((stream_to_web_socket e p raw ''customer'' (log_customer_message e p raw v st))
              \<lparr>customers := tbl\<rparr>)"
  unfolding execute_workflow_def Let_def
  by (simp add: g esc)

lemma select_agent_unknown:
  "a \<notin> {''CustomerGreetingAgent'', ''D2CCustomerSupportAgent'', ''B2BBusinessSupportAgent''}
   \<Longrightarrow> select_agent a = Inl (ValueError (''Unknown agent: '' @ a))"
  unfolding select_agent_def by simp

lemma select_agent_known:
  "select_agent a = Inr b \<longleftrightarrow>
     (a = ''CustomerGreetingAgent'' \<and> b = CustomerGreetingAgent)
     \<or> (a = ''D2CCustomerSupportAgent'' \<and> b = D2CCustomerSupportAgent)
     \<or> (a = ''B2BBusinessSupportAgent'' \<and> b = B2BBusinessSupportAgent)"
  unfolding select_agent_def by auto

lemma route_unknown:
  assumes "router e raw gc = Inr s"
    and "next_agent s \<notin> {''CustomerGreetingAgent'', ''D2CCustomerSupportAgent'', ''B2BBusinessSupportAgent''}"
  shows "route_to_agent e p raw gc st
     = (persist_personal_info p s st, Inl (ValueError (''Unknown agent: '' @ next_agent s)))"
  unfolding route_to_agent_def Let_def
  by (simp add: assms(1) select_agent_unknown [OF assms(2)])

lemma persist_keeps_logs [simp]:
  "chat_history (persist_personal_info p s st) = chat_history st"
  "dashboard (persist_personal_info p s st) = dashboard st"
  "outbox (persist_personal_info p s st) = outbox st"
  "referrals (persist_personal_info p s st) = referrals st"
  by (simp_all add: persist_personal_info_def)

text \<open>
  Claim C4, as amended. \<open>_route_to_agent\<close> applies no override of its own: the handler that
  runs is the one the router's decision names, the greeting handler for
  \<open>CustomerGreetingAgent\<close>, the consumer-support handler for \<open>D2CCustomerSupportAgent\<close> and
  the business-support handler for \<open>B2BBusinessSupportAgent\<close>, whatever classification tag
  the customer context carries. The override by customer type is an instruction of the
  classification prompt only.
\<close>

theorem route_follows_router_decision:
  assumes "router e raw gc = Inr s"
  shows "(next_agent s = ''CustomerGreetingAgent'' \<longrightarrow>
           route_to_agent e p raw gc st
             = agent_run e CustomerGreetingAgent raw gc (persist_personal_info p s st))
      \<and> (next_agent s = ''D2CCustomerSupportAgent'' \<longrightarrow>
           route_to_agent e p raw gc st
             = agent_run e D2CCustomerSupportAgent raw gc (persist_personal_info p s st))
      \<and> (next_agent s = ''B2BBusinessSupportAgent'' \<longrightarrow>
           route_to_agent e p raw gc st
             = agent_run e B2BBusinessSupportAgent raw gc (persist_personal_info p s st))"
  unfolding route_to_agent_def Let_def select_agent_def
  by (simp add: assms)

text \<open>
  The theorem at a router that names the business-support handler for a customer tagged
  \<open>business\<close>: the business-support handler replies.
\<close>

theorem route_follows_router_decision_witness:
  "router (example_routing ''B2BBusinessSupportAgent'') ''We need 50 chairs''
       (format_context example_business [])
     = Inr \<lparr>next_agent = ''B2BBusinessSupportAgent'', name = None, email = None,
            address = None, socials = None, interest_groups = None\<rparr>
   \<and> route_to_agent (example_routing ''B2BBusinessSupportAgent'') ''923005550000''
        ''We need 50 chairs'' (format_context example_business [])
        (example_state [example_business] [])
      = (example_state [example_business] [], Inr ''reply of B2BBusinessSupportAgent'')"
proof -
  let ?e = "example_routing ''B2BBusinessSupportAgent''"
  let ?s = "\<lparr>next_agent = ''B2BBusinessSupportAgent'', name = None, email = None,
            address = None, socials = None, interest_groups = None\<rparr>"
  let ?gc = "format_context example_business []"
  let ?st = "example_state [example_business] []"
  have r: "router ?e ''We need 50 chairs'' ?gc = Inr ?s"
    by (simp add: example_routing_def example_env_def)
  have "route_to_agent ?e ''923005550000'' ''We need 50 chairs'' ?gc ?st
      = agent_run ?e B2BBusinessSupportAgent ''We need 50 chairs'' ?gc
          (persist_personal_info ''923005550000'' ?s ?st)"
    using route_follows_router_decision [OF r, of "''923005550000''" ?st] by simp
  also have "\<dots> = (?st, Inr ''reply of B2BBusinessSupportAgent'')"
    by (simp add: example_routing_def example_env_def persist_personal_info_def
        truthy_str_def truthy_strs_def)
  finally show ?thesis using r by simp
qed

text \<open>
  Claim C4 as stated fails: for the customer tagged \<open>business\<close> and a router decision that
  names the consumer-support handler, the consumer-support handler runs and its reply is
  the one sent.
\<close>

theorem route_override_counterexample:
  "dict_get (customer_context (format_context example_business [])) ''customer_type'' JNull
     = JStr ''business''
   \<and> route_to_agent (example_routing ''D2CCustomerSupportAgent'') ''923005550000''
        ''I need help with my order'' (format_context example_business [])
        (example_state [example_business] [])
      = (example_state [example_business] [], Inr ''reply of D2CCustomerSupportAgent'')
   \<and> map_option outbox
        (case execute_workflow (example_routing ''D2CCustomerSupportAgent'')
                (Some (''I need help with my order'', ''923005550000'')) False
                (example_state [example_business] []) of
           Inl err \<Rightarrow> None | Inr st \<Rightarrow> Some st)
      = Some [(JStr ''923005550000'', ''reply of D2CCustomerSupportAgent'')]"
proof -
  have a: "dict_get (customer_context (format_context example_business [])) ''customer_type'' JNull
     = JStr ''business''"
    by (simp add: workflow_simps)
  have b: "route_to_agent (example_routing ''D2CCustomerSupportAgent'') ''923005550000''
        ''I need help with my order'' (format_context example_business [])
        (example_state [example_business] [])
      = (example_state [example_business] [], Inr ''reply of D2CCustomerSupportAgent'')"
    by (simp add: workflow_simps)
  have c: "map_option outbox
        (case execute_workflow (example_routing ''D2CCustomerSupportAgent'')
                (Some (''I need help with my order'', ''923005550000'')) False
                (example_state [example_business] []) of
           Inl err \<Rightarrow> None | Inr st \<Rightarrow> Some st)
      = Some [(JStr ''923005550000'', ''reply of D2CCustomerSupportAgent'')]"
    by (simp add: workflow_simps Let_def)
  from a b c show ?thesis by (intro conjI)
qed

text \<open>
  Claim C6. When the customer of an inbound message is resolved and the store reports the
  escalation flag as set, the workflow ends with exactly one more entry in the chat
  history, the inbound customer message, one broadcast of that message, and no outbound
  send: no agent reply is produced, logged or dispatched.
\<close>

theorem escalated_customer_gets_no_reply:
  assumes g: "get_or_create_customer e p (customers st) = (tbl, Inr cust)"
    and esc: "is_escalated tbl p"
  shows "\<exists>st'. execute_workflow e (Some (raw, p)) v st = Inr st'
     \<and> chat_history st' = chat_history st @ [(p, customer_message (now e) raw v)]
     \<and> dashboard st' = dashboard st @ [(p, stream_message (now e) raw ''customer'')]
     \<and> outbox st' = outbox st"
  unfolding execute_escalated [OF g esc]
  by (simp add: stream_to_web_socket_def log_customer_message_def)

text \<open>The theorem at the escalated customer Ann, who writes \<open>hello\<close>.\<close>

theorem escalated_customer_gets_no_reply_witness:
  "get_or_create_customer example_env ''923001234567''
       (customers (example_state [example_customer] []))
     = ([example_customer], Inr example_customer)
   \<and> is_escalated [example_customer] ''923001234567''
   \<and> (\<exists>st'. execute_workflow example_env (Some (''hello'', ''923001234567'')) False
               (example_state [example_customer] []) = Inr st'
        \<and> chat_history st'
            = [(''923001234567'', customer_message ''2025-01-01 12:00:00'' ''hello'' False)]
        \<and> dashboard st'
            = [(''923001234567'', stream_message ''2025-01-01 12:00:00'' ''hello'' ''customer'')]
        \<and> outbox st' = [])"
proof -
  let ?st = "example_state [example_customer] []"
  have g: "get_or_create_customer example_env ''923001234567'' (customers ?st)
     = ([example_customer], Inr example_customer)"
    by (simp add: workflow_simps example_customer_def)
  have esc: "is_escalated [example_customer] ''923001234567''"
    by (simp add: workflow_simps example_customer_def)
  from escalated_customer_gets_no_reply [OF g esc, of "''hello''" False]
  have "\<exists>st'. execute_workflow example_env (Some (''hello'', ''923001234567'')) False ?st = Inr st'
        \<and> chat_history st'
            = [(''923001234567'', customer_message ''2025-01-01 12:00:00'' ''hello'' False)]
        \<and> dashboard st'
            = [(''923001234567'', stream_message ''2025-01-01 12:00:00'' ''hello'' ''customer'')]
        \<and> outbox st' = []"
    by (simp add: example_state_def example_env_def)
  with g esc show ?thesis by (intro conjI)
qed

text \<open>
  Claim C9. When the router's decision names a handler that is none of the three known
  ones, \<open>_route_to_agent\<close> raises \<open>ValueError\<close> (there is no fallback handler and no retry);
  the workflow catches it at its top level and ends with only the inbound message logged
  and broadcast: nothing is sent to the sender.
\<close>

theorem unknown_agent_drops_message:
  assumes g: "get_or_create_customer e p (customers st) = (tbl, Inr cust)"
    and esc: "\<not> is_escalated tbl p"
    and nocode: "fst (extract_codes raw) = None"
    and rt: "router e raw (format_context cust (recent_chat_history e st p)) = Inr s"
    and unk: "next_agent s \<notin>
        {''CustomerGreetingAgent'', ''D2CCustomerSupportAgent'', ''B2BBusinessSupportAgent''}"
  shows "(\<exists>st1. route_to_agent e p raw (format_context cust (recent_chat_history e st p)) st
             = (st1, Inl (ValueError (''Unknown agent: '' @ next_agent s))))
     \<and> (\<exists>st'. execute_workflow e (Some (raw, p)) v st = Inr st'
        \<and> chat_history st' = chat_history st @ [(p, customer_message (now e) raw v)]
        \<and> dashboard st' = dashboard st @ [(p, stream_message (now e) raw ''customer'')]
        \<and> outbox st' = outbox st)"
proof
  show "\<exists>st1. route_to_agent e p raw (format_context cust (recent_chat_history e st p)) st
             = (st1, Inl (ValueError (''Unknown agent: '' @ next_agent s)))"
    using route_unknown [OF rt unk] by blast
  let ?st3 = "(stream_to_web_socket e p raw ''customer'' (log_customer_message e p raw v st))
              \<lparr>customers := tbl\<rparr>"
  have "execute_workflow e (Some (raw, p)) v st = Inr (persist_personal_info p s ?st3)"
    unfolding execute_workflow_def Let_def respond_def
    by (simp add: g esc nocode route_unknown [OF rt unk])
  then show "\<exists>st'. execute_workflow e (Some (raw, p)) v st = Inr st'
        \<and> chat_history st' = chat_history st @ [(p, customer_message (now e) raw v)]
        \<and> dashboard st' = dashboard st @ [(p, stream_message (now e) raw ''customer'')]
        \<and> outbox st' = outbox st"
    by (simp add: stream_to_web_socket_def log_customer_message_def)
qed

text \<open>
  The theorem at a router that names \<open>SalesAgent\<close> for the message \<open>hello\<close> of the customer
  Cyd.
\<close>

theorem unknown_agent_drops_message_witness:
  "get_or_create_customer (example_routing ''SalesAgent'') ''923005550000''
       (customers (example_state [example_business] []))
     = ([example_business], Inr example_business)
   \<and> \<not> is_escalated [example_business] ''923005550000''
   \<and> fst (extract_codes ''hello'') = None
   \<and> ''SalesAgent'' \<notin>
        {''CustomerGreetingAgent'', ''D2CCustomerSupportAgent'', ''B2BBusinessSupportAgent''}
   \<and> (\<exists>st'. execute_workflow (example_routing ''SalesAgent'')
               (Some (''hello'', ''923005550000'')) False
               (example_state [example_business] []) = Inr st'
        \<and> chat_history st'
            = [(''923005550000'', customer_message ''2025-01-01 12:00:00'' ''hello'' False)]
        \<and> dashboard st'
            = [(''923005550000'', stream_message ''2025-01-01 12:00:00'' ''hello'' ''customer'')]
        \<and> outbox st' = [])"
proof -
  let ?e = "example_routing ''SalesAgent''"
  let ?st = "example_state [example_business] []"
  let ?s = "\<lparr>next_agent = ''SalesAgent'', name = None, email = None,
            address = None, socials = None, interest_groups = None\<rparr>"
  have g: "get_or_create_customer ?e ''923005550000'' (customers ?st)
     = ([example_business], Inr example_business)"
    by (simp add: workflow_simps)
  have esc: "\<not> is_escalated [example_business] ''923005550000''"
    by (simp add: workflow_simps)
  have nocode: "fst (extract_codes ''hello'') = None"
    by (simp add: workflow_simps)
  have rt: "router ?e ''hello''
      (format_context example_business (recent_chat_history ?e ?st ''923005550000'')) = Inr ?s"
    by (simp add: example_routing_def example_env_def)
  have unk: "next_agent ?s \<notin>
        {''CustomerGreetingAgent'', ''D2CCustomerSupportAgent'', ''B2BBusinessSupportAgent''}"
    by simp
  from unknown_agent_drops_message [OF g esc nocode rt unk, of False]
  have "\<exists>st'. execute_workflow ?e (Some (''hello'', ''923005550000'')) False ?st = Inr st'
        \<and> chat_history st'
            = [(''923005550000'', customer_message ''2025-01-01 12:00:00'' ''hello'' False)]
        \<and> dashboard st'
            = [(''923005550000'', stream_message ''2025-01-01 12:00:00'' ''hello'' ''customer'')]
        \<and> outbox st' = []"
    by (simp add: example_state_def example_routing_def example_env_def)
  moreover from unk have "''SalesAgent'' \<notin>
        {''CustomerGreetingAgent'', ''D2CCustomerSupportAgent'', ''B2BBusinessSupportAgent''}"
    by simp
  ultimately show ?thesis using g esc nocode by (intro conjI)
qed


end
